theory Spec2Isabelle
  imports Complex_Main
begin

section \<open>JavaScript values used by the extension\<close>

text \<open>
  A JavaScript string is modelled as a \<^typ>\<open>string\<close>: a list of code units, each
  \<^typ>\<open>char\<close> standing for the code unit with the same number (0 to 255), so that
  \<open>length\<close> and list positions are JavaScript's \<open>.length\<close> and string indices.

  \<open>isWhiteSpace\<close> is the class \<open>\s\<close> of a JavaScript regular expression (and what
  \<open>String.prototype.trim\<close> strips) restricted to these code units: TAB, LF, VT, FF,
  CR, SPACE and NBSP. \<open>isWordChar\<close> is the class \<open>\w\<close>: \<open>[A-Za-z0-9_]\<close>.
\<close>

definition isWhiteSpace :: "char \<Rightarrow> bool" where
  "isWhiteSpace c =
     (let n = (of_char c :: nat)
      in (9 \<le> n \<and> n \<le> 13) \<or> n = 32 \<or> n = 160)"

definition isWordChar :: "char \<Rightarrow> bool" where
  "isWordChar c =
     (let n = (of_char c :: nat)
      in (65 \<le> n \<and> n \<le> 90) \<or> (97 \<le> n \<and> n \<le> 122) \<or> (48 \<le> n \<and> n \<le> 57) \<or> n = 95)"

text \<open>
  \<open>String.prototype.substring(start, end)\<close>: both indices are clamped to the length
  and swapped when \<open>start > end\<close>.
\<close>

definition substring :: "string \<Rightarrow> nat \<Rightarrow> nat \<Rightarrow> string" where
  "substring s a b =
     (let lo = min (min a b) (length s); hi = min (max a b) (length s)
      in take (hi - lo) (drop lo s))"

text \<open>The decimal digits a template literal \<open>`${n}`\<close> prints for a non-negative integer.\<close>

definition digitChar :: "nat \<Rightarrow> char" where
  "digitChar d = ''0123456789'' ! d"

fun showNat :: "nat \<Rightarrow> string" where
  "showNat n = (if n < 10 then [digitChar n] else showNat (n div 10) @ [digitChar (n mod 10)])"

declare showNat.simps [simp del]

text \<open>
  A JavaScript number is an IEEE 754 double: \<open>NaN\<close>, \<open>-Infinity\<close>, \<open>Infinity\<close>,
  or a finite value, which is given by the real number it denotes. The two zeros are
  one value: no operation used by the extension tells them apart.

  Every finite double is an integer multiple of \<open>2^(-1074)\<close> with at most 53
  significant bits and a magnitude below \<open>2^1024\<close>. \<open>bitLength n\<close> is the number of
  bits of \<open>n\<close>; \<open>roundToEven53 n\<close> rounds \<open>n\<close> to 53 significant bits, to nearest,
  a tie to the even neighbour. \<open>roundDouble x\<close> rounds a real number counted in units
  of \<open>2^(-1074)\<close>: the sum and the difference of two doubles are whole numbers of
  units (of any other real the fraction of a unit is dropped first, which no operation
  on doubles meets). \<open>toDouble\<close> is the result an arithmetic operation delivers: the
  rounded value, or an infinity when the rounded value is outside the finite range.
\<close>

datatype number = NaN | NegInf | PosInf | Num real

fun bitLength :: "nat \<Rightarrow> nat" where
  "bitLength n = (if n = 0 then 0 else Suc (bitLength (n div 2)))"

declare bitLength.simps [simp del]

definition roundToEven53 :: "nat \<Rightarrow> nat" where
  "roundToEven53 n =
     (let k = bitLength n - 53
      in if k = 0 then n
         else
           (let q = n div 2 ^ k; r = n mod 2 ^ k; h = 2 ^ (k - 1)
            in (if r > h \<or> (r = h \<and> odd q) then q + 1 else q) * 2 ^ k))"

definition roundDouble :: "real \<Rightarrow> real" where
  "roundDouble x =
     (let u = \<lfloor>x * 2 ^ 1074\<rfloor>
      in of_int (sgn u * int (roundToEven53 (nat \<bar>u\<bar>))) / 2 ^ 1074)"

definition toDouble :: "real \<Rightarrow> number" where
  "toDouble x =
     (let r = roundDouble x
      in if 2 ^ 1024 \<le> r then PosInf else if r \<le> - (2 ^ 1024) then NegInf else Num r)"

text \<open>
  \<open>+\<close>, \<open>-\<close> and \<open>Math.abs\<close>. \<open>NaN\<close> propagates, and so do the infinities, except
  that \<open>Infinity - Infinity\<close> (in either form) is \<open>NaN\<close>.
\<close>

fun js_add :: "number \<Rightarrow> number \<Rightarrow> number" where
  "js_add (Num a) (Num b) = toDouble (a + b)"
| "js_add NaN _ = NaN"
| "js_add _ NaN = NaN"
| "js_add PosInf NegInf = NaN"
| "js_add NegInf PosInf = NaN"
| "js_add PosInf _ = PosInf"
| "js_add _ PosInf = PosInf"
| "js_add NegInf _ = NegInf"
| "js_add _ NegInf = NegInf"

fun js_sub :: "number \<Rightarrow> number \<Rightarrow> number" where
  "js_sub (Num a) (Num b) = toDouble (a - b)"
| "js_sub NaN _ = NaN"
| "js_sub _ NaN = NaN"
| "js_sub PosInf PosInf = NaN"
| "js_sub NegInf NegInf = NaN"
| "js_sub PosInf _ = PosInf"
| "js_sub NegInf _ = NegInf"
| "js_sub _ PosInf = NegInf"
| "js_sub _ NegInf = PosInf"

fun js_abs :: "number \<Rightarrow> number" where
  "js_abs (Num a) = Num \<bar>a\<bar>"
| "js_abs NaN = NaN"
| "js_abs NegInf = PosInf"
| "js_abs PosInf = PosInf"

text \<open>
  \<open><\<close>, \<open>>=\<close> and \<open>>\<close>. Every comparison with \<open>NaN\<close> is false; the other values
  are ordered as extended real numbers.
\<close>

fun js_lt :: "number \<Rightarrow> number \<Rightarrow> bool" where
  "js_lt (Num a) (Num b) = (a < b)"
| "js_lt NaN _ = False"
| "js_lt _ NaN = False"
| "js_lt PosInf _ = False"
| "js_lt _ NegInf = False"
| "js_lt NegInf _ = True"
| "js_lt _ PosInf = True"

fun js_ge :: "number \<Rightarrow> number \<Rightarrow> bool" where
  "js_ge (Num a) (Num b) = (a \<ge> b)"
| "js_ge NaN _ = False"
| "js_ge _ NaN = False"
| "js_ge PosInf _ = True"
| "js_ge _ NegInf = True"
| "js_ge NegInf _ = False"
| "js_ge _ PosInf = False"

fun js_gt :: "number \<Rightarrow> number \<Rightarrow> bool" where
  "js_gt (Num a) (Num b) = (a > b)"
| "js_gt NaN _ = False"
| "js_gt _ NaN = False"
| "js_gt NegInf _ = False"
| "js_gt _ PosInf = False"
| "js_gt PosInf _ = True"
| "js_gt _ NegInf = True"

text \<open>The double that the literal \<open>0.1\<close> denotes: the double nearest to one tenth.\<close>

definition pointOne :: real where
  "pointOne = 3602879701896397 / 2 ^ 55"

section \<open>Types of the extension (types/index.ts)\<close>

record subtitle_word =
  w_id :: string
  w_text :: string
  startIndex :: nat
  endIndex :: nat

record subtitle_segment =
  s_id :: string
  startTime :: number
  endTime :: number
  s_text :: string
  s_words :: "subtitle_word list"

section \<open>SubtitleExtractor.splitIntoWords\<close>

text \<open>
  \<open>regexExec s lastIndex\<close> is one call \<open>regex.exec(text)\<close> of the global regular
  expression \<open>/\S+/g\<close> whose \<open>lastIndex\<close> is the given position: the search starts
  there, skips white space, and matches the longest run of non-white-space code units.
  The result is the match's \<open>index\<close> and its text \<open>match[0]\<close>, or \<open>None\<close> for
  \<open>null\<close>. After a match the engine sets \<open>lastIndex\<close> to \<open>index + match[0].length\<close>.
\<close>

definition regexExec :: "string \<Rightarrow> nat \<Rightarrow> (nat \<times> string) option" where
  "regexExec s lastIndex =
     (let rest = drop lastIndex s;
          gap = takeWhile isWhiteSpace rest;
          run = takeWhile (\<lambda>c. \<not> isWhiteSpace c) (dropWhile isWhiteSpace rest)
      in if run = [] then None else Some (lastIndex + length gap, run))"

text \<open>
  The \<open>while ((match = regex.exec(text)) !== null)\<close> loop of \<open>splitIntoWords\<close>: its
  state is the regular expression's \<open>lastIndex\<close>, \<open>wordIndex\<close> and the array
  \<open>words\<close>.
\<close>

function splitLoop ::
  "string \<Rightarrow> string \<Rightarrow> nat \<Rightarrow> nat \<Rightarrow> subtitle_word list \<Rightarrow> subtitle_word list" where
  "splitLoop s segmentId lastIndex wordIndex ws =
     (case regexExec s lastIndex of
        None \<Rightarrow> ws
      | Some (index, m) \<Rightarrow>
          splitLoop s segmentId (index + length m) (Suc wordIndex)
            (ws @ [\<lparr>w_id = segmentId @ ''-word-'' @ showNat wordIndex,
                     w_text = m, startIndex = index, endIndex = index + length m\<rparr>]))"
  by pat_completeness auto
termination
proof (relation "measure (\<lambda>(s, segmentId, lastIndex, wordIndex, ws). length s - lastIndex)", goal_cases)
  case 1
  show ?case by simp
next
  case (2 s segmentId lastIndex wordIndex ws x2 idx m)
  then have run: "m \<noteq> []" and idx: "lastIndex \<le> idx"
    by (auto simp: regexExec_def Let_def split: if_splits)
  from 2 have "drop lastIndex s \<noteq> []"
    by (auto simp: regexExec_def Let_def split: if_splits)
  then have "lastIndex < length s" by simp
  with run idx show ?case by (cases m) auto
qed

declare splitLoop.simps [simp del]

definition splitIntoWords :: "string \<Rightarrow> string \<Rightarrow> subtitle_word list" where
  "splitIntoWords s segmentId = splitLoop s segmentId 0 0 []"

text \<open>The substring of the segment text that a word's offsets address.\<close>

definition wordSubstring :: "string \<Rightarrow> subtitle_word \<Rightarrow> string" where
  "wordSubstring s w = substring s (startIndex w) (endIndex w)"

section \<open>The page and browser facilities the extractor reads\<close>

text \<open>
  The player metadata, typed as the interfaces \<open>CaptionTrack\<close> and \<open>PlayerResponse\<close>
  of SubtitleExtractor.ts declare it; an optional member that is absent is \<open>None\<close>.
\<close>

record caption_track =
  baseUrl :: string
  languageCode :: string

record tracklist_renderer =
  captionTracks :: "caption_track list option"

record captions_object =
  playerCaptionsTracklistRenderer :: "tracklist_renderer option"

record player_response =
  captions :: "captions_object option"

text \<open>
  A \<open>text\<close> element of the parsed caption document: what \<open>getAttribute('start')\<close>
  and \<open>getAttribute('dur')\<close> return (\<open>None\<close> for \<open>null\<close>) and its \<open>textContent\<close>.
\<close>

record text_element =
  attr_start :: "string option"
  attr_dur :: "string option"
  textContent :: string

text \<open>The outcome of \<open>await fetch(url)\<close>: the promise rejects, or a response arrives.\<close>

datatype fetch_result = Rejected | Response (ok: bool) (status: nat) (body: string)

text \<open>
  What one run of the extractor reads from its surroundings. The first group is the
  page: the \<open>v\<close> parameter of \<open>window.location.search\<close>, \<open>window.location.pathname\<close>,
  the global \<open>ytInitialPlayerResponse\<close>, the \<open>textContent\<close> of every \<open>script\<close>
  element in document order, the legacy \<open>ytplayer.config.args.raw_player_response\<close>,
  whether \<open>#movie_player\<close> and a \<open>video\<close> element exist, and the video's
  \<open>currentTime\<close>. The second group is the network. The third group stands for
  browser built-ins that are not part of the repository and are taken as parameters:
  \<^item> \<open>matchAssignment s\<close>: capture group 1 of
    \<open>s.match(/ytInitialPlayerResponse\s*=\s*({[\s\S]+?});/)\<close>, \<open>None\<close> without a match;
  \<^item> \<open>jsonParse s\<close>: \<open>JSON.parse(s)\<close> read as a \<open>PlayerResponse\<close>, \<open>None\<close> when it throws;
  \<^item> \<open>queryTextElements xml\<close>: the elements
    \<open>new DOMParser().parseFromString(xml, 'text/xml').querySelectorAll('text')\<close>;
  \<^item> \<open>parseFloat\<close>;
  \<^item> \<open>textareaDecode s\<close>: the \<open>value\<close> of a \<open>textarea\<close> whose \<open>innerHTML\<close> was set to \<open>s\<close>.
\<close>

record browser =
  search_v :: "string option"
  pathname :: string
  ytInitialPlayerResponse :: "player_response option"
  scripts :: "string list"
  raw_player_response :: "player_response option"
  hasMoviePlayer :: bool
  hasVideo :: bool
  videoCurrentTime :: number
  fetch :: "string \<Rightarrow> fetch_result"
  matchAssignment :: "string \<Rightarrow> string option"
  jsonParse :: "string \<Rightarrow> player_response option"
  queryTextElements :: "string \<Rightarrow> text_element list"
  parseFloat :: "string \<Rightarrow> number"
  textareaDecode :: "string \<Rightarrow> string"

text \<open>\<open>a || d\<close> for a string or \<open>null\<close>: the empty string is falsy as well.\<close>

definition orElse :: "string option \<Rightarrow> string \<Rightarrow> string" where
  "orElse a d = (case a of None \<Rightarrow> d | Some v \<Rightarrow> if v = [] then d else v)"

fun startsWith :: "string \<Rightarrow> string \<Rightarrow> bool" where
  "startsWith s [] = True"
| "startsWith [] (p # ps) = False"
| "startsWith (c # cs) (p # ps) = (c = p \<and> startsWith cs ps)"

fun includesText :: "string \<Rightarrow> string \<Rightarrow> bool" where
  "includesText [] p = (p = [])"
| "includesText (c # cs) p = (startsWith (c # cs) p \<or> includesText cs p)"

section \<open>SubtitleExtractor\<close>

record extractor =
  videoId :: "string option"
  subtitles :: "subtitle_segment list"

definition getVideoId :: "browser \<Rightarrow> string option" where
  "getVideoId b = search_v b"

text \<open>\<open>!!this.getVideoId()\<close>: neither \<open>null\<close> nor the empty string.\<close>

definition truthy :: "string option \<Rightarrow> bool" where
  "truthy a = (case a of None \<Rightarrow> False | Some v \<Rightarrow> v \<noteq> [])"

definition isVideoPage :: "browser \<Rightarrow> bool" where
  "isVideoPage b = (pathname b = ''/watch'' \<and> truthy (getVideoId b))"

definition hasCaptions :: "player_response \<Rightarrow> bool" where
  "hasCaptions response =
     (case captions response of
        None \<Rightarrow> False
      | Some c \<Rightarrow>
          (case playerCaptionsTracklistRenderer c of
             None \<Rightarrow> False
           | Some r \<Rightarrow>
               (case captionTracks r of
                  None \<Rightarrow> False
                | Some tracks \<Rightarrow> length tracks \<noteq> 0)))"

definition getCaptionTracks :: "player_response \<Rightarrow> caption_track list option" where
  "getCaptionTracks playerResponse =
     (case captions playerResponse of
        None \<Rightarrow> None
      | Some c \<Rightarrow>
          (case playerCaptionsTracklistRenderer c of
             None \<Rightarrow> None
           | Some r \<Rightarrow> captionTracks r))"

text \<open>
  One round of the \<open>for (const script of scripts)\<close> loop of \<open>getPlayerResponse\<close>:
  \<open>Some json\<close> when the round returns, \<open>None\<close> when the loop goes on to the next
  script (no mention, no match, \<open>JSON.parse\<close> threw, or \<open>json.captions\<close> is missing).
\<close>

definition scriptCandidate :: "browser \<Rightarrow> string \<Rightarrow> player_response option" where
  "scriptCandidate b content =
     (if includesText content ''ytInitialPlayerResponse'' then
        (case matchAssignment b content of
           None \<Rightarrow> None
         | Some m \<Rightarrow>
             (case jsonParse b m of
                None \<Rightarrow> None
              | Some json \<Rightarrow> if captions json \<noteq> None then Some json else None))
      else None)"

fun scanScripts :: "browser \<Rightarrow> string list \<Rightarrow> player_response option" where
  "scanScripts b [] = None"
| "scanScripts b (content # rest) =
     (case scriptCandidate b content of
        Some json \<Rightarrow> Some json
      | None \<Rightarrow> scanScripts b rest)"

definition getPlayerResponse :: "browser \<Rightarrow> player_response option" where
  "getPlayerResponse b =
     (case ytInitialPlayerResponse b of
        Some r \<Rightarrow> Some r
      | None \<Rightarrow>
          (case scanScripts b (scripts b) of
             Some json \<Rightarrow> Some json
           | None \<Rightarrow>
               (case raw_player_response b of
                  Some r \<Rightarrow> Some r
                | None \<Rightarrow> None)))"

definition fetchPlayerResponseFallback :: "browser \<Rightarrow> string \<Rightarrow> player_response option" where
  "fetchPlayerResponseFallback b vid =
     (case fetch b (''https://www.youtube.com/watch?v='' @ vid) of
        Rejected \<Rightarrow> None
      | Response _ _ html \<Rightarrow>
          (case matchAssignment b html of
             None \<Rightarrow> None
           | Some m \<Rightarrow>
               (case jsonParse b m of
                  None \<Rightarrow> None
                | Some json \<Rightarrow> if hasCaptions json then Some json else None)))"

text \<open>The errors thrown inside the \<open>try\<close> block of \<open>extractSubtitles\<close>.\<close>

datatype extract_error =
    NoVideoId
  | NoPlayerResponse
  | NoCaptionTracks
  | FetchSubtitlesFailed nat
  | FetchRejected
  | TypeError

definition fetchSubtitles :: "browser \<Rightarrow> string \<Rightarrow> extract_error + string" where
  "fetchSubtitles b url =
     (case fetch b url of
        Rejected \<Rightarrow> Inl FetchRejected
      | Response okay st xml \<Rightarrow> if \<not> okay then Inl (FetchSubtitlesFailed st) else Inr xml)"

definition parseElement :: "browser \<Rightarrow> nat \<Rightarrow> text_element \<Rightarrow> subtitle_segment" where
  "parseElement b index element =
     (let start = parseFloat b (orElse (attr_start element) ''0'');
          duration = parseFloat b (orElse (attr_dur element) ''0'');
          decoded = textareaDecode b (textContent element)
      in \<lparr>s_id = ''segment-'' @ showNat index,
          startTime = start,
          endTime = js_add start duration,
          s_text = decoded,
          s_words = splitIntoWords decoded (''segment-'' @ showNat index)\<rparr>)"

text \<open>\<open>textElements.forEach((element, index) => segments.push(...))\<close>.\<close>

fun forEachText ::
  "browser \<Rightarrow> nat \<Rightarrow> text_element list \<Rightarrow> subtitle_segment list \<Rightarrow> subtitle_segment list" where
  "forEachText b index [] segs = segs"
| "forEachText b index (element # rest) segs =
     forEachText b (Suc index) rest (segs @ [parseElement b index element])"

definition parseXml :: "browser \<Rightarrow> string \<Rightarrow> subtitle_segment list" where
  "parseXml b xmlString = forEachText b 0 (queryTextElements b xmlString) []"

text \<open>
  The player response \<open>extractSubtitles\<close> goes on with: that of \<open>getPlayerResponse\<close>,
  replaced by the result of the fallback fetch when it is missing or has no captions.
\<close>

definition locatePlayerResponse :: "browser \<Rightarrow> string \<Rightarrow> player_response option" where
  "locatePlayerResponse b vid =
     (case getPlayerResponse b of
        None \<Rightarrow> fetchPlayerResponseFallback b vid
      | Some r \<Rightarrow> if \<not> hasCaptions r then fetchPlayerResponseFallback b vid else Some r)"

definition firstTrack :: "caption_track list \<Rightarrow> caption_track option" where
  "firstTrack tracks = (case tracks of [] \<Rightarrow> None | t # _ \<Rightarrow> Some t)"

definition selectTrack :: "string option \<Rightarrow> caption_track list \<Rightarrow> caption_track option" where
  "selectTrack language tracks =
     (let track =
        (if truthy language
         then find (\<lambda>t. Some (languageCode t) = language) tracks
         else firstTrack tracks)
      in case track of None \<Rightarrow> firstTrack tracks | Some t \<Rightarrow> Some t)"

text \<open>
  The body of the \<open>try\<close> block: \<open>Inl\<close> is a thrown error, \<open>Inr\<close> the parsed segments.
\<close>

definition extractBody :: "browser \<Rightarrow> string option \<Rightarrow> extract_error + subtitle_segment list" where
  "extractBody b language =
     (case getVideoId b of
        None \<Rightarrow> Inl NoVideoId
      | Some vid \<Rightarrow>
          if vid = [] then Inl NoVideoId
          else
            (case locatePlayerResponse b vid of
               None \<Rightarrow> Inl NoPlayerResponse
             | Some playerResponse \<Rightarrow>
                 (case getCaptionTracks playerResponse of
                    None \<Rightarrow> Inl NoCaptionTracks
                  | Some tracks \<Rightarrow>
                      if length tracks = 0 then Inl NoCaptionTracks
                      else
                        (case selectTrack language tracks of
                           None \<Rightarrow> Inl TypeError
                         | Some track \<Rightarrow>
                             (case fetchSubtitles b (baseUrl track) of
                                Inl e \<Rightarrow> Inl e
                              | Inr xml \<Rightarrow> Inr (parseXml b xml))))))"

text \<open>
  \<open>extractSubtitles\<close>: the \<open>catch\<close> turns every thrown error into the empty list.
  \<open>this.videoId\<close> is assigned first; \<open>this.subtitles\<close> only when parsing was reached.
\<close>

definition extractSubtitles ::
  "browser \<Rightarrow> string option \<Rightarrow> extractor \<Rightarrow> subtitle_segment list \<times> extractor" where
  "extractSubtitles b language ex =
     (case extractBody b language of
        Inl e \<Rightarrow> ([], ex\<lparr>videoId := getVideoId b\<rparr>)
      | Inr segs \<Rightarrow> (segs, ex\<lparr>videoId := getVideoId b, subtitles := segs\<rparr>))"

definition getCurrentSegment :: "extractor \<Rightarrow> number \<Rightarrow> subtitle_segment option" where
  "getCurrentSegment ex time =
     find (\<lambda>segment. js_ge time (startTime segment) \<and> js_lt time (endTime segment)) (subtitles ex)"

text \<open>
  The find of the claim: a segment is active at \<open>t\<close> when \<open>startTime \<le> t < endTime\<close>.
  A sequence is ordered and non-overlapping when every segment starts no later than it
  ends and no earlier than its predecessor ends.
\<close>

definition activeAt :: "number \<Rightarrow> subtitle_segment \<Rightarrow> bool" where
  "activeAt t segment = (js_ge t (startTime segment) \<and> js_lt t (endTime segment))"

fun orderedSegments :: "subtitle_segment list \<Rightarrow> bool" where
  "orderedSegments [] = True"
| "orderedSegments [a] = js_ge (endTime a) (startTime a)"
| "orderedSegments (a # c # rest) =
     (js_ge (endTime a) (startTime a) \<and> js_ge (startTime c) (endTime a) \<and>
      orderedSegments (c # rest))"

text \<open>
  The locator as the specification words it: the results of the four strategies in
  order, and the first of them that carries a non-empty caption-track list.
\<close>

definition usable :: "player_response option \<Rightarrow> bool" where
  "usable r = (case r of None \<Rightarrow> False | Some p \<Rightarrow> hasCaptions p)"

definition inPageStrategies :: "browser \<Rightarrow> player_response option list" where
  "inPageStrategies b =
     [ytInitialPlayerResponse b, scanScripts b (scripts b), raw_player_response b]"

definition firstOf :: "('a option \<Rightarrow> bool) \<Rightarrow> 'a option list \<Rightarrow> 'a option" where
  "firstOf P rs = (case find P rs of None \<Rightarrow> None | Some r \<Rightarrow> r)"

definition claimedLocator :: "browser \<Rightarrow> string \<Rightarrow> player_response option" where
  "claimedLocator b vid =
     firstOf usable (inPageStrategies b @ [fetchPlayerResponseFallback b vid])"

section \<open>SubtitleOverlay.tsx\<close>

record translation_response =
  r_word :: string
  r_translation :: string
  r_language :: string
  r_pronunciation :: "string option"
  r_partOfSpeech :: "string option"
  r_definitions :: "string list option"

text \<open>
  The fields of \<open>SubtitleOverlayManager\<close>. \<open>root\<close>, \<open>container\<close> and
  \<open>videoElement\<close> record whether the member is non-null; the two callbacks whether
  they are set; \<open>animationFrameId\<close> is \<open>None\<close> for \<open>null\<close>.
\<close>

record overlay_manager =
  root :: bool
  container :: bool
  segments :: "subtitle_segment list"
  currentTime :: number
  translation :: "translation_response option"
  hoveredWord :: "subtitle_word option"
  isEnabled :: bool
  videoElement :: bool
  animationFrameId :: "nat option"
  onTranslationRequest :: bool
  onWordSave :: bool

text \<open>
  What the extension changes outside its own objects: whether the overlay container is
  in the document (a child of \<open>#movie_player\<close>), the handles of the animation-frame
  callbacks that are scheduled, the handle the next \<open>requestAnimationFrame\<close> returns
  (handles are positive and never repeat), and how often \<open>root.render\<close> was called.
\<close>

record host =
  overlayAttached :: bool
  pendingFrames :: "nat list"
  nextFrame :: nat
  renderCount :: nat

text \<open>
  The content script's state: the fields of \<open>YouTubeLanguageReactor\<close>, the two
  singletons \<open>subtitleExtractor\<close> and \<open>subtitleOverlayManager\<close>, and the host.
\<close>

record world =
  isInitialized :: bool
  currentVideoId :: "string option"
  extractorState :: extractor
  overlay :: overlay_manager
  hostState :: host

text \<open>The \<open>find\<close> of the \<open>SubtitleOverlay\<close> component over its props.\<close>

definition currentSegment :: "subtitle_segment list \<Rightarrow> number \<Rightarrow> subtitle_segment option" where
  "currentSegment segs time =
     find (\<lambda>segment. js_ge time (startTime segment) \<and> js_lt time (endTime segment)) segs"

definition render :: "world \<Rightarrow> world" where
  "render w =
     (if \<not> root (overlay w) then w
      else w\<lparr>hostState := (hostState w)\<lparr>renderCount := Suc (renderCount (hostState w))\<rparr>\<rparr>)"

definition requestAnimationFrame :: "world \<Rightarrow> nat \<times> world" where
  "requestAnimationFrame w =
     (let h = nextFrame (hostState w)
      in (h, w\<lparr>hostState := (hostState w)\<lparr>pendingFrames := pendingFrames (hostState w) @ [h],
                                             nextFrame := Suc h\<rparr>\<rparr>))"

definition cancelAnimationFrame :: "nat \<Rightarrow> world \<Rightarrow> world" where
  "cancelAnimationFrame h w =
     w\<lparr>hostState := (hostState w)\<lparr>pendingFrames := removeAll h (pendingFrames (hostState w))\<rparr>\<rparr>"

text \<open>One run of the closure \<open>syncTime\<close> of \<open>startTimeSync\<close>: one sync tick.\<close>

definition syncTime :: "browser \<Rightarrow> world \<Rightarrow> world" where
  "syncTime b w =
     (let w1 =
        (if videoElement (overlay w) then
           (let newTime = videoCurrentTime b
            in if js_gt (js_abs (js_sub newTime (currentTime (overlay w)))) (Num pointOne)
               then render (w\<lparr>overlay := (overlay w)\<lparr>currentTime := newTime\<rparr>\<rparr>)
               else w)
         else w);
          (h, w2) = requestAnimationFrame w1
      in w2\<lparr>overlay := (overlay w2)\<lparr>animationFrameId := Some h\<rparr>\<rparr>)"

definition startTimeSync :: "browser \<Rightarrow> world \<Rightarrow> world" where
  "startTimeSync b w = syncTime b w"

definition initialize :: "browser \<Rightarrow> world \<Rightarrow> bool \<times> world" where
  "initialize b w =
     (if \<not> hasMoviePlayer b then (False, w)
      else if container (overlay w) \<and> overlayAttached (hostState w) then (True, w)
      else
        (let w1 = w\<lparr>overlay := (overlay w)\<lparr>container := True, root := True,
                                               videoElement := hasVideo b\<rparr>,
                      hostState := (hostState w)\<lparr>overlayAttached := True\<rparr>\<rparr>;
             w2 = (if videoElement (overlay w1) then startTimeSync b w1 else w1)
         in (True, render w2)))"

definition setSubtitles :: "subtitle_segment list \<Rightarrow> world \<Rightarrow> world" where
  "setSubtitles segs w = render (w\<lparr>overlay := (overlay w)\<lparr>segments := segs\<rparr>\<rparr>)"

definition setOnTranslationRequest :: "world \<Rightarrow> world" where
  "setOnTranslationRequest w = w\<lparr>overlay := (overlay w)\<lparr>onTranslationRequest := True\<rparr>\<rparr>"

definition setOnWordSave :: "world \<Rightarrow> world" where
  "setOnWordSave w = w\<lparr>overlay := (overlay w)\<lparr>onWordSave := True\<rparr>\<rparr>"

text \<open>
  \<open>destroy\<close>: \<open>if (this.animationFrameId)\<close> is false for \<open>null\<close> and for 0;
  \<open>this.container.parentNode\<close> is non-null exactly when the container is attached.
\<close>

definition destroy :: "world \<Rightarrow> world" where
  "destroy w =
     (let w1 = (case animationFrameId (overlay w) of
                  None \<Rightarrow> w
                | Some h \<Rightarrow> if h = 0 then w else cancelAnimationFrame h w);
          w2 = (if root (overlay w1) then w1\<lparr>overlay := (overlay w1)\<lparr>root := False\<rparr>\<rparr> else w1)
      in if container (overlay w2) \<and> overlayAttached (hostState w2)
         then w2\<lparr>overlay := (overlay w2)\<lparr>container := False\<rparr>,
                 hostState := (hostState w2)\<lparr>overlayAttached := False\<rparr>\<rparr>
         else w2)"

section \<open>The content script (YouTubeLanguageReactor)\<close>

definition cleanup :: "world \<Rightarrow> world" where
  "cleanup w = destroy (w\<lparr>isInitialized := False\<rparr>)"

definition initializeForVideo :: "browser \<Rightarrow> world \<Rightarrow> world" where
  "initializeForVideo b w =
     (let (subs, ex) = extractSubtitles b None (extractorState w);
          w1 = w\<lparr>extractorState := ex\<rparr>
      in if length subs = 0 then w1
         else
           (let (overlayInitialized, w2) = initialize b w1
            in if \<not> overlayInitialized then w2
               else (setOnWordSave (setOnTranslationRequest (setSubtitles subs w2)))
                      \<lparr>isInitialized := True\<rparr>))"

text \<open>
  \<open>waitForPlayer\<close> polls every 500 ms until \<open>#movie_player\<close> and a \<open>video\<close>
  element exist. The page is taken as given for the whole call, so the promise
  resolves at once or never; \<open>checkAndInitialize\<close> is \<open>None\<close> when it never returns.
  \<open>selectVideo\<close> is the assignment \<open>this.currentVideoId = videoId\<close>; the state it
  returns is the one in which waiting and then acquisition for the new video begin.
\<close>

definition waitForPlayer :: "browser \<Rightarrow> bool" where
  "waitForPlayer b = (hasMoviePlayer b \<and> hasVideo b)"

definition selectVideo :: "string option \<Rightarrow> world \<Rightarrow> world" where
  "selectVideo vid w = w\<lparr>currentVideoId := vid\<rparr>"

definition checkAndInitialize :: "browser \<Rightarrow> world \<Rightarrow> world option" where
  "checkAndInitialize b w =
     (if \<not> isVideoPage b then Some (cleanup w)
      else
        (let vid = getVideoId b
         in if vid = currentVideoId w \<and> isInitialized w then Some w
            else if waitForPlayer b then Some (initializeForVideo b (selectVideo vid w))
            else None))"

text \<open>The state of a freshly loaded content script.\<close>

definition initialWorld :: world where
  "initialWorld =
     \<lparr>isInitialized = False, currentVideoId = None,
      extractorState = \<lparr>videoId = None, subtitles = []\<rparr>,
      overlay = \<lparr>root = False, container = False, segments = [], currentTime = Num 0,
                 translation = None, hoveredWord = None, isEnabled = True,
                 videoElement = False, animationFrameId = None,
                 onTranslationRequest = False, onWordSave = False\<rparr>,
      hostState = \<lparr>overlayAttached = False, pendingFrames = [], nextFrame = 1,
                   renderCount = 0\<rparr>\<rparr>"

section \<open>utils/storage.ts, utils/api.ts and the service worker\<close>

text \<open>
  \<open>String.prototype.toLowerCase\<close> on the code units below 256 (A to Z and the
  upper-case letters of Latin-1 move up by 32), \<open>String.prototype.trim\<close>, and
  \<open>replace(/[^\w\s]/g, '')\<close>, which deletes every code unit that is neither a word
  character nor white space.
\<close>

definition toLowerChar :: "char \<Rightarrow> char" where
  "toLowerChar c =
     (let n = (of_char c :: nat)
      in if (65 \<le> n \<and> n \<le> 90) \<or> (192 \<le> n \<and> n \<le> 222 \<and> n \<noteq> 215)
         then char_of (n + 32) else c)"

definition toLowerCase :: "string \<Rightarrow> string" where
  "toLowerCase s = map toLowerChar s"

definition trim :: "string \<Rightarrow> string" where
  "trim s = rev (dropWhile isWhiteSpace (rev (dropWhile isWhiteSpace s)))"

fun replaceNonWord :: "string \<Rightarrow> string" where
  "replaceNonWord [] = []"
| "replaceNonWord (c # cs) =
     (if \<not> isWordChar c \<and> \<not> isWhiteSpace c then replaceNonWord cs
      else c # replaceNonWord cs)"

text \<open>\<open>VocabularyItem\<close>; \<open>vocabulary_input\<close> is \<open>Omit<VocabularyItem, 'id'>\<close>.\<close>

record vocabulary_input =
  originalWord :: string
  v_translation :: string
  contextSentence :: string
  v_videoId :: string
  videoTitle :: "string option"
  timestamp :: string
  v_language :: "string option"
  mastery :: "number option"

record vocabulary_item = vocabulary_input +
  v_id :: nat

record extension_settings =
  enabled :: bool
  targetLanguage :: string
  sourceLanguage :: string
  apiEndpoint :: string

definition DEFAULT_SETTINGS :: extension_settings where
  "DEFAULT_SETTINGS =
     \<lparr>enabled = True, targetLanguage = ''vi'', sourceLanguage = ''en'',
      apiEndpoint = ''http://localhost:5001''\<rparr>"

text \<open>
  \<open>chrome.storage.local\<close>: the three keys the extension uses, \<open>None\<close> for a key that
  was never written. The translation cache is a plain object, read here through its
  own properties only.
\<close>

record chrome_storage =
  vocabulary :: "vocabulary_item list option"
  settings :: "extension_settings option"
  translationCache :: "(string \<Rightarrow> string option) option"

text \<open>The body the backend receives and the JSON it answers with.\<close>

record api_request =
  a_word :: string
  a_context :: "string option"
  a_source_language :: string
  a_target_language :: string

record api_data =
  d_word :: string
  d_translation :: string
  d_language :: "string option"
  d_pronunciation :: "string option"
  d_part_of_speech :: "string option"
  d_definitions :: "string list option"

text \<open>
  What the service worker reads from outside during one message: whether
  \<open>chrome.storage.local.get\<close> and \<open>set\<close> reject, \<open>Date.now()\<close>,
  \<open>new Date().toISOString()\<close>, and the backend: \<open>apiTranslate\<close> is \<open>None\<close> when the
  request fails (the fetch rejects, the status is not ok, or the body is not JSON).
\<close>

record worker_env =
  getRejects :: bool
  setRejects :: bool
  dateNow :: nat
  isoNow :: string
  apiTranslate :: "api_request \<Rightarrow> api_data option"

definition getVocabulary :: "worker_env \<Rightarrow> chrome_storage \<Rightarrow> vocabulary_item list" where
  "getVocabulary env st =
     (if getRejects env then []
      else (case vocabulary st of None \<Rightarrow> [] | Some v \<Rightarrow> v))"

text \<open>\<open>Array.prototype.findIndex\<close>, with \<open>None\<close> for -1.\<close>

fun findIndex :: "('a \<Rightarrow> bool) \<Rightarrow> 'a list \<Rightarrow> nat option" where
  "findIndex P [] = None"
| "findIndex P (x # xs) =
     (if P x then Some 0 else (case findIndex P xs of None \<Rightarrow> None | Some i \<Rightarrow> Some (Suc i)))"

datatype storage_error = StorageSetRejected

definition saveVocabularyItem ::
  "worker_env \<Rightarrow> chrome_storage \<Rightarrow> vocabulary_input
     \<Rightarrow> storage_error + (vocabulary_item \<times> chrome_storage)" where
  "saveVocabularyItem env st item =
     (let vocab = getVocabulary env st;
          existingIndex =
            findIndex (\<lambda>v. toLowerCase (originalWord v) = toLowerCase (originalWord item)) vocab;
          newItem =
            \<lparr>originalWord = originalWord item, v_translation = v_translation item,
              contextSentence = contextSentence item, v_videoId = v_videoId item,
              videoTitle = videoTitle item, timestamp = isoNow env,
              v_language = v_language item, mastery = mastery item,
              v_id = (case existingIndex of Some i \<Rightarrow> v_id (vocab ! i) | None \<Rightarrow> dateNow env)\<rparr>;
          vocab' = (case existingIndex of
                      Some i \<Rightarrow> vocab[i := newItem]
                    | None \<Rightarrow> vocab @ [newItem])
      in if setRejects env then Inl StorageSetRejected
         else Inr (newItem, st\<lparr>vocabulary := Some vocab'\<rparr>))"

definition getSettings :: "worker_env \<Rightarrow> chrome_storage \<Rightarrow> extension_settings" where
  "getSettings env st =
     (if getRejects env then DEFAULT_SETTINGS
      else (case settings st of None \<Rightarrow> DEFAULT_SETTINGS | Some s \<Rightarrow> s))"

definition getCachedTranslation :: "worker_env \<Rightarrow> chrome_storage \<Rightarrow> string \<Rightarrow> string option" where
  "getCachedTranslation env st w =
     (if getRejects env then None
      else
        (case translationCache st of
           None \<Rightarrow> None
         | Some cache \<Rightarrow>
             (case cache (toLowerCase w) of
                None \<Rightarrow> None
              | Some t \<Rightarrow> if t = [] then None else Some t)))"

definition cacheTranslation ::
  "worker_env \<Rightarrow> chrome_storage \<Rightarrow> string \<Rightarrow> string \<Rightarrow> chrome_storage" where
  "cacheTranslation env st w t =
     (if getRejects env \<or> setRejects env then st
      else
        (let cache = (case translationCache st of None \<Rightarrow> Map.empty | Some c \<Rightarrow> c)
         in st\<lparr>translationCache := Some (cache(toLowerCase w \<mapsto> t))\<rparr>))"

record translation_request =
  q_word :: string
  q_contextSentence :: "string option"
  q_sourceLanguage :: "string option"
  q_targetLanguage :: string

text \<open>The JSON body \<open>translateWord\<close> posts to \<open>/api/translate\<close>.\<close>

definition requestBody :: "translation_request \<Rightarrow> api_request" where
  "requestBody request =
     \<lparr>a_word = q_word request, a_context = q_contextSentence request,
      a_source_language = orElse (q_sourceLanguage request) ''en'',
      a_target_language = q_targetLanguage request\<rparr>"

definition translateWord :: "worker_env \<Rightarrow> translation_request \<Rightarrow> translation_response" where
  "translateWord env request =
     (case apiTranslate env (requestBody request) of
        Some d \<Rightarrow>
          \<lparr>r_word = d_word d, r_translation = d_translation d,
            r_language = orElse (d_language d) (q_targetLanguage request),
            r_pronunciation = d_pronunciation d, r_partOfSpeech = d_part_of_speech d,
            r_definitions = d_definitions d\<rparr>
      | None \<Rightarrow>
          \<lparr>r_word = q_word request, r_translation = ''['' @ q_word request @ '']'',
            r_language = q_targetLanguage request,
            r_pronunciation = None, r_partOfSpeech = None, r_definitions = None\<rparr>)"

definition cleanWord :: "string \<Rightarrow> string" where
  "cleanWord w = toLowerCase (trim (replaceNonWord w))"

text \<open>The request \<open>handleGetTranslation\<close> hands to \<open>translateWord\<close> on a cache miss.\<close>

definition apiRequestFor ::
  "extension_settings \<Rightarrow> translation_request \<Rightarrow> translation_request" where
  "apiRequestFor s request =
     \<lparr>q_word = cleanWord (q_word request), q_contextSentence = q_contextSentence request,
      q_sourceLanguage = Some (sourceLanguage s), q_targetLanguage = targetLanguage s\<rparr>"

definition handleGetTranslation ::
  "worker_env \<Rightarrow> chrome_storage \<Rightarrow> translation_request
     \<Rightarrow> translation_response \<times> chrome_storage" where
  "handleGetTranslation env st request =
     (let s = getSettings env st;
          w = cleanWord (q_word request)
      in case getCachedTranslation env st w of
           Some cached \<Rightarrow>
             (\<lparr>r_word = w, r_translation = cached, r_language = targetLanguage s,
               r_pronunciation = None, r_partOfSpeech = None, r_definitions = None\<rparr>, st)
         | None \<Rightarrow>
             (let t = translateWord env (apiRequestFor s request)
              in if r_translation t \<noteq> [] \<and> \<not> startsWith (r_translation t) ''[''
                 then (t, cacheTranslation env st w (r_translation t))
                 else (t, st)))"

section \<open>Predicates used in the statements\<close>

text \<open>What the loop guarantees of each word it emits when started at position \<open>i\<close>.\<close>

definition wordOk :: "string \<Rightarrow> nat \<Rightarrow> subtitle_word \<Rightarrow> bool" where
  "wordOk s i w =
     (i \<le> startIndex w \<and> startIndex w < endIndex w \<and> endIndex w \<le> length s \<and>
      w_text w = wordSubstring s w \<and> \<not> list_ex isWhiteSpace (wordSubstring s w))"

text \<open>
  The failure modes of \<open>extractSubtitles\<close>: no video id, no player response with
  captions from any strategy, no track, a failed caption fetch, or a caption document
  without \<open>text\<close> elements.
\<close>

definition extractionFailure :: "browser \<Rightarrow> string option \<Rightarrow> bool" where
  "extractionFailure b language =
     (case getVideoId b of
        None \<Rightarrow> True
      | Some vid \<Rightarrow>
          vid = [] \<or>
          (case locatePlayerResponse b vid of
             None \<Rightarrow> True
           | Some r \<Rightarrow>
               (case getCaptionTracks r of
                  None \<Rightarrow> True
                | Some tracks \<Rightarrow>
                    tracks = [] \<or>
                    (case selectTrack language tracks of
                       None \<Rightarrow> True
                     | Some track \<Rightarrow>
                         (case fetchSubtitles b (baseUrl track) of
                            Inl e \<Rightarrow> True
                          | Inr xml \<Rightarrow> queryTextElements b xml = [])))))"

text \<open>The case-insensitive match of \<open>saveVocabularyItem\<close>.\<close>

definition sameWord :: "vocabulary_input \<Rightarrow> vocabulary_item \<Rightarrow> bool" where
  "sameWord item v = (toLowerCase (originalWord v) = toLowerCase (originalWord item))"

text \<open>
  The stored list: the value under the key \<open>vocabulary\<close> of \<open>chrome.storage.local\<close>,
  empty while the key has never been written.
\<close>

definition storedVocabulary :: "chrome_storage \<Rightarrow> vocabulary_item list" where
  "storedVocabulary st = (case vocabulary st of None \<Rightarrow> [] | Some v \<Rightarrow> v)"

section \<open>Concrete pages and states\<close>

definition demoParseFloat :: "string \<Rightarrow> number" where
  "demoParseFloat s =
     (if s = ''0'' then Num 0 else if s = ''1.0'' then Num 1
      else if s = ''2.5'' then Num (5 / 2) else NaN)"

definition trackUrl :: string where
  "trackUrl = ''https://www.youtube.com/api/timedtext?v=A&lang=en''"

definition helloXml :: string where
  \<open>helloXml = ''<text start="1.0" dur="2.5">Hello world</text>''\<close>

definition helloElement :: text_element where
  "helloElement =
     \<lparr>attr_start = Some ''1.0'', attr_dur = Some ''2.5'', textContent = ''Hello world''\<rparr>"

definition helloSegment :: subtitle_segment where
  "helloSegment =
     \<lparr>s_id = ''segment-0'', startTime = Num 1, endTime = Num (7 / 2), s_text = ''Hello world'',
      s_words =
        [\<lparr>w_id = ''segment-0-word-0'', w_text = ''Hello'', startIndex = 0, endIndex = 5\<rparr>,
         \<lparr>w_id = ''segment-0-word-1'', w_text = ''world'', startIndex = 6, endIndex = 11\<rparr>]\<rparr>"

definition captionedResponse :: player_response where
  "captionedResponse =
     \<lparr>captions = Some \<lparr>playerCaptionsTracklistRenderer =
        Some \<lparr>captionTracks = Some [\<lparr>baseUrl = trackUrl, languageCode = ''en''\<rparr>]\<rparr>\<rparr>\<rparr>"

definition captionlessResponse :: player_response where
  "captionlessResponse = \<lparr>captions = None\<rparr>"

definition emptyTracksResponse :: player_response where
  "emptyTracksResponse =
     \<lparr>captions = Some \<lparr>playerCaptionsTracklistRenderer = Some \<lparr>captionTracks = Some []\<rparr>\<rparr>\<rparr>"

definition scriptA :: string where
  "scriptA = ''var ytInitialPlayerResponse = {A};''"

text \<open>A caption document whose only \<open>text\<close> element has no attributes.\<close>

definition bareXml :: string where
  "bareXml = ''<text>Hi</text>''"

definition bareElement :: text_element where
  "bareElement = \<lparr>attr_start = None, attr_dur = None, textContent = ''Hi''\<rparr>"

text \<open>A page that is no watch page and offers nothing; the network is down.\<close>

definition blankPage :: browser where
  "blankPage =
     \<lparr>search_v = None, pathname = ''/'', ytInitialPlayerResponse = None, scripts = [],
      raw_player_response = None, hasMoviePlayer = True, hasVideo = True,
      videoCurrentTime = Num 0, fetch = (\<lambda>url. Rejected), matchAssignment = (\<lambda>s. None),
      jsonParse = (\<lambda>s. None), queryTextElements = (\<lambda>xml. []),
      parseFloat = demoParseFloat, textareaDecode = (\<lambda>s. s)\<rparr>"

text \<open>
  The watch page of video A: an inline script assigns a player response with one
  English track, whose file is the one-line document \<open>helloXml\<close>.
\<close>

definition pageA :: browser where
  "pageA =
     blankPage\<lparr>search_v := Some ''A'', pathname := ''/watch'', scripts := [scriptA],
       matchAssignment := (\<lambda>s. if s = scriptA then Some ''{A}'' else None),
       jsonParse := (\<lambda>s. if s = ''{A}'' then Some captionedResponse else None),
       fetch := (\<lambda>url. if url = trackUrl then Response True 200 helloXml else Rejected),
       queryTextElements := (\<lambda>xml. if xml = helloXml then [helloElement] else [])\<rparr>"

text \<open>Page A when its caption file is \<open>bareXml\<close>.\<close>

definition barePage :: browser where
  "barePage =
     pageA\<lparr>fetch := (\<lambda>url. if url = trackUrl then Response True 200 bareXml else Rejected),
       queryTextElements := (\<lambda>xml. if xml = bareXml then [bareElement] else [])\<rparr>"

text \<open>The watch page of video B, which has no captions anywhere.\<close>

definition pageB :: browser where
  "pageB = blankPage\<lparr>search_v := Some ''B'', pathname := ''/watch''\<rparr>"

text \<open>Page A with a window global that carries no captions.\<close>

definition shadowedPageA :: browser where
  "shadowedPageA = pageA\<lparr>ytInitialPlayerResponse := Some captionlessResponse\<rparr>"

text \<open>Page A whose inline script advertises an empty track list.\<close>

definition emptyTracksPage :: browser where
  "emptyTracksPage =
     pageA\<lparr>jsonParse := (\<lambda>s. if s = ''{A}'' then Some emptyTracksResponse else None)\<rparr>"

text \<open>
  Page A whose inline script advertises an empty track list, while the legacy config
  holds the response with the English track.
\<close>

definition shadowedLegacyPage :: browser where
  "shadowedLegacyPage = emptyTracksPage\<lparr>raw_player_response := Some captionedResponse\<rparr>"

text \<open>
  Page A seen without any inline script (and without globals): only the watch page
  fetched over the network, whose HTML here is the text of \<open>scriptA\<close>, holds the
  player response.
\<close>

definition fetchOnlyPage :: browser where
  "fetchOnlyPage =
     pageA\<lparr>scripts := [],
       fetch := (\<lambda>url. if url = ''https://www.youtube.com/watch?v=A''
                         then Response True 200 scriptA
                       else if url = trackUrl then Response True 200 helloXml
                       else Rejected)\<rparr>"

text \<open>Page A whose caption file answers 404, and page A whose file has no text node.\<close>

definition failedFetchPage :: browser where
  "failedFetchPage = pageA\<lparr>fetch := (\<lambda>url. Response False 404 [])\<rparr>"

definition noNodesPage :: browser where
  "noNodesPage = pageA\<lparr>queryTextElements := (\<lambda>xml. [])\<rparr>"

text \<open>The state once the content script has set up the session for video A.\<close>

definition sessionA :: world where
  "sessionA =
     \<lparr>isInitialized = True, currentVideoId = Some ''A'',
      extractorState = \<lparr>videoId = Some ''A'', subtitles = [helloSegment]\<rparr>,
      overlay = \<lparr>root = True, container = True, segments = [helloSegment],
                 currentTime = Num 0, translation = None, hoveredWord = None,
                 isEnabled = True, videoElement = True, animationFrameId = Some 1,
                 onTranslationRequest = True, onWordSave = True\<rparr>,
      hostState = \<lparr>overlayAttached = True, pendingFrames = [1], nextFrame = 2,
                   renderCount = 2\<rparr>\<rparr>"

text \<open>
  Two times of the video, both doubles: \<open>tinyTime\<close> is \<open>3 * 2^(-58)\<close> s, and
  \<open>nextAfterPointOne\<close> is the double that follows the double \<open>0.1\<close>, printed
  \<open>0.10000000000000002\<close>. \<open>rewoundSession\<close> is the session of video A two ticks
  after \<open>sessionA\<close>, when the viewer has played to 1 s and has then gone back to
  \<open>tinyTime\<close>.
\<close>

definition tinyTime :: real where
  "tinyTime = 3 / 2 ^ 58"

definition nextAfterPointOne :: real where
  "nextAfterPointOne = 7205759403792795 / 2 ^ 56"

definition rewoundSession :: world where
  "rewoundSession =
     \<lparr>isInitialized = True, currentVideoId = Some ''A'',
      extractorState = \<lparr>videoId = Some ''A'', subtitles = [helloSegment]\<rparr>,
      overlay = \<lparr>root = True, container = True, segments = [helloSegment],
                 currentTime = Num tinyTime, translation = None, hoveredWord = None,
                 isEnabled = True, videoElement = True, animationFrameId = Some 3,
                 onTranslationRequest = True, onWordSave = True\<rparr>,
      hostState = \<lparr>overlayAttached = True, pendingFrames = [1, 2, 3], nextFrame = 4,
                   renderCount = 4\<rparr>\<rparr>"

text \<open>Three segments in order with a gap, and two that overlap.\<close>

definition threeSegments :: "subtitle_segment list" where
  "threeSegments =
     [\<lparr>s_id = ''segment-0'', startTime = Num 1, endTime = Num 3, s_text = ''a'', s_words = []\<rparr>,
      \<lparr>s_id = ''segment-1'', startTime = Num 3, endTime = Num 5, s_text = ''b'', s_words = []\<rparr>,
      \<lparr>s_id = ''segment-2'', startTime = Num 6, endTime = Num 8, s_text = ''c'', s_words = []\<rparr>]"

definition overlappingSegments :: "subtitle_segment list" where
  "overlappingSegments =
     [\<lparr>s_id = ''segment-0'', startTime = Num 1, endTime = Num 3, s_text = ''a'', s_words = []\<rparr>,
      \<lparr>s_id = ''segment-1'', startTime = Num 2, endTime = Num 5, s_text = ''b'', s_words = []\<rparr>]"

text \<open>Storage contents and service-worker surroundings used in the examples.\<close>

definition emptyStorage :: chrome_storage where
  "emptyStorage = \<lparr>vocabulary = None, settings = None, translationCache = None\<rparr>"

definition helloItem :: vocabulary_item where
  "helloItem =
     \<lparr>originalWord = ''Hello'', v_translation = ''xin chao'', contextSentence = ''Hello world'',
      v_videoId = ''A'', videoTitle = Some ''Video A'', timestamp = ''2023-01-01T00:00:00.000Z'',
      v_language = None, mastery = None, v_id = 7\<rparr>"

definition byeItem :: vocabulary_item where
  "byeItem =
     \<lparr>originalWord = ''bye'', v_translation = ''tam biet'', contextSentence = ''bye now'',
      v_videoId = ''A'', videoTitle = None, timestamp = ''2023-01-02T00:00:00.000Z'',
      v_language = None, mastery = None, v_id = 9\<rparr>"

definition helloInput :: vocabulary_input where
  "helloInput =
     \<lparr>originalWord = ''hello'', v_translation = ''chao'', contextSentence = ''oh hello'',
      v_videoId = ''B'', videoTitle = None, timestamp = ''2024-05-05T00:00:00.000Z'',
      v_language = None, mastery = None\<rparr>"

definition worldInput :: vocabulary_input where
  "worldInput =
     \<lparr>originalWord = ''world'', v_translation = ''the gioi'', contextSentence = ''Hello world'',
      v_videoId = ''A'', videoTitle = None, timestamp = ''2024-05-05T00:00:00.000Z'',
      v_language = None, mastery = None\<rparr>"

definition twoWordStorage :: chrome_storage where
  "twoWordStorage = emptyStorage\<lparr>vocabulary := Some [byeItem, helloItem]\<rparr>"

text \<open>The backend is unreachable.\<close>

definition offlineEnv :: worker_env where
  "offlineEnv =
     \<lparr>getRejects = False, setRejects = False, dateNow = 1700000000000,
      isoNow = ''2023-11-14T22:13:20.000Z'', apiTranslate = (\<lambda>r. None)\<rparr>"

text \<open>The same, when moreover \<open>chrome.storage.local.get\<close> rejects.\<close>

definition unreadableEnv :: worker_env where
  "unreadableEnv = offlineEnv\<lparr>getRejects := True\<rparr>"

text \<open>A backend that answers with the dictionary headword of the word it was sent.\<close>

definition headwordEnv :: worker_env where
  "headwordEnv =
     offlineEnv\<lparr>apiTranslate :=
       (\<lambda>r. if a_word r = ''hello''
            then Some \<lparr>d_word = ''Hello'', d_translation = ''xin chao'', d_language = Some ''vi'',
                       d_pronunciation = None, d_part_of_speech = None, d_definitions = None\<rparr>
            else None)\<rparr>"

definition cachedStorage :: chrome_storage where
  "cachedStorage = emptyStorage\<lparr>translationCache := Some [''hello'' \<mapsto> ''xin chao'']\<rparr>"

definition hoverRequest :: translation_request where
  "hoverRequest =
     \<lparr>q_word = ''Hello,'', q_contextSentence = Some ''Hello, world'',
      q_sourceLanguage = None, q_targetLanguage = []\<rparr>"


section \<open>Properties of double arithmetic\<close>

lemma bitLength_le: "bitLength n \<le> k \<longleftrightarrow> n < 2 ^ k"
proof (induction n arbitrary: k rule: bitLength.induct)
  case (1 n)
  show ?case
  proof (cases "n = 0")
    case True
    then show ?thesis by (simp add: bitLength.simps)
  next
    case False
    show ?thesis
    proof (cases k)
      case 0
      with False show ?thesis by (simp add: bitLength.simps)
    next
      case (Suc k')
      have "bitLength n \<le> Suc k' \<longleftrightarrow> bitLength (n div 2) \<le> k'"
        using False by (subst bitLength.simps) simp
      also have "\<dots> \<longleftrightarrow> n div 2 < 2 ^ k'" using 1[OF False] by simp
      also have "\<dots> \<longleftrightarrow> n < 2 ^ Suc k'" by auto
      finally show ?thesis using Suc by simp
    qed
  qed
qed

lemma bitLength_0: "bitLength 0 = 0"
  by (simp add: bitLength.simps)

lemma bitLength_scale:
  assumes "0 < n"
  shows "bitLength (n * 2 ^ j) = bitLength n + j"
proof -
  let ?b = "bitLength n"
  have u: "n < 2 ^ ?b" using bitLength_le[of n ?b] by simp
  have bpos: "0 < ?b"
  proof (rule ccontr)
    assume "\<not> 0 < ?b"
    then have "bitLength n \<le> 0" by simp
    then have "n < 2 ^ 0" by (simp only: bitLength_le)
    with assms show False by simp
  qed
  have "\<not> bitLength n \<le> ?b - 1" using bpos by simp
  then have l: "2 ^ (?b - 1) \<le> n" by (simp only: bitLength_le not_less)
  have "n * 2 ^ j < 2 ^ (?b + j)" using u by (simp add: power_add)
  then have le: "bitLength (n * 2 ^ j) \<le> ?b + j" by (simp only: bitLength_le)
  have "(2::nat) ^ (?b - 1) * 2 ^ j \<le> n * 2 ^ j" using l by simp
  then have "\<not> n * 2 ^ j < 2 ^ (?b - 1 + j)" by (simp add: power_add not_less)
  then have "\<not> bitLength (n * 2 ^ j) \<le> ?b - 1 + j" by (simp add: bitLength_le)
  with le bpos show ?thesis by simp
qed

text \<open>A number of at most 53 bits, at any scale, is not changed by the rounding.\<close>

lemma roundToEven53_exact:
  assumes "m < 2 ^ 53"
  shows "roundToEven53 (m * 2 ^ j) = m * 2 ^ j"
proof -
  let ?n = "m * 2 ^ j"
  let ?k = "bitLength ?n - 53"
  show ?thesis
  proof (cases "?k = 0")
    case True
    then show ?thesis by (simp add: roundToEven53_def)
  next
    case False
    have "?n < 2 ^ (53 + j)" using assms by (simp add: power_add)
    then have "bitLength ?n \<le> 53 + j" by (simp add: bitLength_le)
    then have kj: "?k \<le> j" by simp
    then have "(2::nat) ^ ?k dvd 2 ^ j" by (simp add: le_imp_power_dvd)
    then have d: "(2::nat) ^ ?k dvd ?n" by simp
    then have r: "?n mod 2 ^ ?k = 0" by simp
    have q: "?n div 2 ^ ?k * 2 ^ ?k = ?n" using d by simp
    have h: "(0::nat) < 2 ^ (?k - 1)" by simp
    show ?thesis
      using False r q h by (simp add: roundToEven53_def Let_def)
  qed
qed

text \<open>The rounding does not depend on the scale.\<close>

lemma roundToEven53_scale: "roundToEven53 (n * 2 ^ j) = roundToEven53 n * 2 ^ j"
proof (cases "n = 0")
  case True
  then show ?thesis by (simp add: roundToEven53_def bitLength_0)
next
  case False
  then have pos: "0 < n" by simp
  show ?thesis
  proof (cases "bitLength n \<le> 53")
    case True
    then have "n < 2 ^ 53" by (simp only: bitLength_le)
    from roundToEven53_exact[OF this, of j] roundToEven53_exact[OF this, of 0]
    show ?thesis by simp
  next
    case False
    define k where "k = bitLength n - 53"
    have kpos: "0 < k" using False by (simp add: k_def)
    have k': "bitLength (n * 2 ^ j) - 53 = k + j"
      using False by (simp add: bitLength_scale[OF pos] k_def)
    have p: "(2::nat) ^ (k + j) = 2 ^ k * 2 ^ j" by (simp add: power_add)
    have q: "n * 2 ^ j div 2 ^ (k + j) = n div 2 ^ k" unfolding p by simp
    have r: "n * 2 ^ j mod 2 ^ (k + j) = (n mod 2 ^ k) * 2 ^ j"
      unfolding p by (simp add: mult_mod_left mult.commute)
    have h: "(2::nat) ^ (k + j - 1) = 2 ^ (k - 1) * 2 ^ j"
      using kpos by (simp flip: power_add)
    have c1: "(n mod 2 ^ k) * 2 ^ j > 2 ^ (k - 1) * 2 ^ j \<longleftrightarrow> n mod 2 ^ k > 2 ^ (k - 1)"
      by simp
    have c2: "(n mod 2 ^ k) * 2 ^ j = 2 ^ (k - 1) * 2 ^ j \<longleftrightarrow> n mod 2 ^ k = 2 ^ (k - 1)"
      by simp
    have kj: "k + j \<noteq> 0" "k \<noteq> 0" using kpos by simp_all
    have "roundToEven53 (n * 2 ^ j) =
        (if n mod 2 ^ k > 2 ^ (k - 1) \<or> (n mod 2 ^ k = 2 ^ (k - 1) \<and> odd (n div 2 ^ k))
         then n div 2 ^ k + 1 else n div 2 ^ k) * 2 ^ (k + j)"
      unfolding roundToEven53_def[of "n * 2 ^ j"] k' Let_def q r h c1 c2 using kj by simp
    also have "\<dots> = roundToEven53 n * 2 ^ j"
      unfolding roundToEven53_def[of n] k_def[symmetric] Let_def p using kj by simp
    finally show ?thesis .
  qed
qed

text \<open>
  Rounding a multiple of \<open>2^(-i)\<close> is rounding its numerator; a numerator of at most
  53 bits is a double already, and an operation with such a result delivers it unchanged.
\<close>

lemma roundDouble_scaled:
  assumes "i \<le> 1074"
  shows "roundDouble (of_int m / 2 ^ i) = of_int (sgn m * int (roundToEven53 (nat \<bar>m\<bar>))) / 2 ^ i"
proof -
  have p: "(2::real) ^ 1074 = 2 ^ i * 2 ^ (1074 - i)"
    using assms by (simp flip: power_add)
  have "of_int m / 2 ^ i * (2::real) ^ 1074 = of_int m * 2 ^ (1074 - i)"
    unfolding p by simp
  also have "\<dots> = of_int (m * 2 ^ (1074 - i))" by simp
  finally have u: "\<lfloor>of_int m / 2 ^ i * (2::real) ^ 1074\<rfloor> = m * 2 ^ (1074 - i)"
    by (simp only: floor_of_int)
  have a: "nat \<bar>m * 2 ^ (1074 - i)\<bar> = nat \<bar>m\<bar> * 2 ^ (1074 - i)"
    by (simp add: abs_mult nat_mult_distrib nat_power_eq)
  have s: "sgn (m * 2 ^ (1074 - i)) = sgn m" by (simp add: sgn_mult)
  have "roundDouble (of_int m / 2 ^ i) =
      of_int (sgn m * int (roundToEven53 (nat \<bar>m\<bar>) * 2 ^ (1074 - i))) / 2 ^ 1074"
    unfolding roundDouble_def u Let_def a roundToEven53_scale s ..
  also have "\<dots> = of_int (sgn m * int (roundToEven53 (nat \<bar>m\<bar>))) * 2 ^ (1074 - i) / 2 ^ 1074"
    by simp
  also have "\<dots> = of_int (sgn m * int (roundToEven53 (nat \<bar>m\<bar>))) / 2 ^ i"
    unfolding p by simp
  finally show ?thesis .
qed

lemma roundDouble_dyadic:
  assumes "\<bar>m\<bar> < 2 ^ 53" "i \<le> 1074"
  shows "roundDouble (of_int m / 2 ^ i) = of_int m / 2 ^ i"
proof -
  have b: "nat \<bar>m\<bar> < 2 ^ 53" using assms(1) by (simp add: nat_less_iff)
  from roundToEven53_exact[OF b, of 0] have e: "roundToEven53 (nat \<bar>m\<bar>) = nat \<bar>m\<bar>" by simp
  have "sgn m * int (nat \<bar>m\<bar>) = m" by (simp add: sgn_mult_abs)
  then show ?thesis unfolding roundDouble_scaled[OF assms(2)] e by simp
qed

lemma toDouble_dyadic:
  assumes "\<bar>m\<bar> < 2 ^ 53" "i \<le> 1074"
  shows "toDouble (of_int m / 2 ^ i) = Num (of_int m / 2 ^ i)"
proof -
  have "\<bar>of_int m :: real\<bar> < 2 ^ 53"
  proof -
    have "\<bar>of_int m :: real\<bar> = of_int \<bar>m\<bar>" by simp
    also have "\<dots> < of_int (2 ^ 53)" using assms(1) by (simp only: of_int_less_iff)
    finally show ?thesis by simp
  qed
  moreover have "\<bar>of_int m / 2 ^ i :: real\<bar> \<le> \<bar>of_int m\<bar>"
    by (simp add: abs_divide divide_le_eq mult_le_cancel_left1)
  moreover have "(2::real) ^ 53 < 2 ^ 1024" by simp
  ultimately have "\<bar>of_int m / 2 ^ i :: real\<bar> < 2 ^ 1024" by linarith
  then have "\<not> 2 ^ 1024 \<le> (of_int m / 2 ^ i :: real)" "\<not> (of_int m / 2 ^ i :: real) \<le> - (2 ^ 1024)"
    by linarith+
  then show ?thesis
    unfolding toDouble_def roundDouble_dyadic[OF assms] Let_def by (simp only: if_False)
qed

text \<open>
  The results that the operations deliver at the values used below. In the last four
  the exact result is not a double and is rounded: \<open>0.1 + 0.2\<close> is
  \<open>0.30000000000000004\<close> (a tie, resolved to the even neighbour), \<open>tinyTime - 1\<close>
  is \<open>-1\<close>, \<open>nextAfterPointOne - tinyTime\<close> is rounded down to the double \<open>0.1\<close>,
  and the largest double added to itself is \<open>Infinity\<close>.
\<close>

lemma toDouble_0: "toDouble 0 = Num 0"
  using toDouble_dyadic[of 0 0] by simp

lemma toDouble_1: "toDouble 1 = Num 1"
  using toDouble_dyadic[of 1 0] by simp

lemma toDouble_7_2: "toDouble (7 / 2) = Num (7 / 2)"
  using toDouble_dyadic[of 7 1] by simp

lemma toDouble_sixteenth: "toDouble (1 / 16) = Num (1 / 16)"
  using toDouble_dyadic[of 1 4] by simp

lemma toDouble_pointOne: "toDouble pointOne = Num pointOne"
  using toDouble_dyadic[of 3602879701896397 55] by (simp add: pointOne_def)

lemma toDouble_nextAfterPointOne: "toDouble nextAfterPointOne = Num nextAfterPointOne"
  using toDouble_dyadic[of 7205759403792795 56] by (simp add: nextAfterPointOne_def)

lemma bitLength_54: "bitLength 10808639105689191 = 54"
  by (simp add: bitLength.simps)

lemma bitLength_55: "bitLength 28823037615171177 = 55"
  by (simp add: bitLength.simps)

lemma bitLength_58: "bitLength 288230376151711741 = 58"
  by (simp add: bitLength.simps)

lemma js_add_rounds_tie_to_even:
  "js_add (Num pointOne) (Num (2 * pointOne)) = Num (5404319552844596 / 2 ^ 54)"
proof -
  have e: "pointOne + 2 * pointOne = of_int 10808639105689191 / 2 ^ 55"
    by (simp add: pointOne_def)
  have r: "roundToEven53 10808639105689191 = 10808639105689192"
    by (simp add: roundToEven53_def bitLength_54 Let_def)
  have "roundDouble (pointOne + 2 * pointOne) = 5404319552844596 / 2 ^ 54"
    unfolding e using roundDouble_scaled[of 55 10808639105689191] by (simp add: r)
  then show ?thesis by (simp add: toDouble_def)
qed

lemma toDouble_rewind: "toDouble (tinyTime - 1) = Num (- 1)"
proof -
  have e: "tinyTime - 1 = of_int (- 288230376151711741) / 2 ^ 58"
    by (simp add: tinyTime_def)
  have r: "roundToEven53 288230376151711741 = 288230376151711744"
    by (simp add: roundToEven53_def bitLength_58 Let_def)
  have "roundDouble (tinyTime - 1) = - 1"
    unfolding e using roundDouble_scaled[of 58 "- 288230376151711741"] by (simp add: r)
  then show ?thesis by (simp add: toDouble_def)
qed

lemma toDouble_rounds_to_pointOne:
  "toDouble (nextAfterPointOne - tinyTime) = Num pointOne"
proof -
  have e: "nextAfterPointOne - tinyTime = of_int 28823037615171177 / 2 ^ 58"
    by (simp add: nextAfterPointOne_def tinyTime_def)
  have r: "roundToEven53 28823037615171177 = 28823037615171176"
    by (simp add: roundToEven53_def bitLength_55 Let_def)
  have "roundDouble (nextAfterPointOne - tinyTime) = pointOne"
    unfolding e using roundDouble_scaled[of 58 28823037615171177] by (simp add: r pointOne_def)
  then show ?thesis by (simp add: toDouble_def pointOne_def)
qed

lemma js_add_overflows:
  "js_add (Num ((2 ^ 53 - 1) * 2 ^ 971)) (Num ((2 ^ 53 - 1) * 2 ^ 971)) = PosInf"
proof -
  have e: "((2 ^ 53 - 1) * 2 ^ 971 + (2 ^ 53 - 1) * 2 ^ 971 :: real) =
      of_int ((2 ^ 53 - 1) * 2 ^ 972) / 2 ^ 0"
    by simp
  have "nat \<bar>(2 ^ 53 - 1) * 2 ^ 972 :: int\<bar> = (2 ^ 53 - 1) * 2 ^ 972"
    by (simp add: nat_mult_distrib nat_power_eq nat_diff_distrib)
  then have "roundToEven53 (nat \<bar>(2 ^ 53 - 1) * 2 ^ 972 :: int\<bar>) = (2 ^ 53 - 1) * 2 ^ 972"
    using roundToEven53_exact[of "2 ^ 53 - 1" 972] by simp
  then have "roundDouble ((2 ^ 53 - 1) * 2 ^ 971 + (2 ^ 53 - 1) * 2 ^ 971) =
      (2 ^ 53 - 1) * 2 ^ 972"
    unfolding e using roundDouble_scaled[of 0 "(2 ^ 53 - 1) * 2 ^ 972"] by simp
  then show ?thesis by (simp add: toDouble_def)
qed

lemma pointOne_order:
  "\<not> pointOne < 0" "\<not> pointOne < 1 / 16" "pointOne < 1" "pointOne < nextAfterPointOne"
  "pointOne < nextAfterPointOne - tinyTime" "\<bar>pointOne\<bar> = pointOne"
  "\<bar>nextAfterPointOne\<bar> = nextAfterPointOne"
  by (simp_all add: pointOne_def nextAfterPointOne_def tinyTime_def)

text \<open>
  \<open>pointOne\<close> is the literal \<open>0.1\<close>: it is a double, and it lies within half a unit
  in the last place (the unit is \<open>2^(-56)\<close> between 1/16 and 1/8) of one tenth, which
  it exceeds.
\<close>

lemma pointOne_literal:
  "toDouble pointOne = Num pointOne \<and> 1 / 10 < pointOne \<and> pointOne - 1 / 10 < 1 / 2 ^ 57"
proof -
  have "toDouble pointOne = Num pointOne"
    using toDouble_dyadic[of 3602879701896397 55] by (simp add: pointOne_def)
  then show ?thesis by (simp add: pointOne_def)
qed

section \<open>Properties of word splitting\<close>

lemma regexExec_Some:
  assumes "regexExec s i = Some (j, m)"
  shows "i \<le> j" "m \<noteq> []" "j + length m \<le> length s"
    "take (length m) (drop j s) = m"
    "\<forall>c \<in> set m. \<not> isWhiteSpace c"
    "\<forall>c \<in> set (take (j - i) (drop i s)). isWhiteSpace c"
    "drop i s = take (j - i) (drop i s) @ m @ drop (j + length m) s"
    "drop (j + length m) s \<noteq> [] \<longrightarrow> isWhiteSpace (hd (drop (j + length m) s))"
proof -
  define rest where "rest = drop i s"
  define gap where "gap = takeWhile isWhiteSpace rest"
  define tail where "tail = dropWhile isWhiteSpace rest"
  define run where "run = takeWhile (\<lambda>c. \<not> isWhiteSpace c) tail"
  define after where "after = dropWhile (\<lambda>c. \<not> isWhiteSpace c) tail"
  from assms have jm: "j = i + length gap" "m = run" and ne: "run \<noteq> []"
    by (auto simp: regexExec_def Let_def rest_def gap_def run_def tail_def split: if_splits)
  have rest: "rest = gap @ run @ after"
    by (simp add: gap_def run_def after_def tail_def)
  show "i \<le> j" using jm by simp
  show "m \<noteq> []" using jm ne by simp
  have len: "length rest = length s - i" by (simp add: rest_def)
  have "length gap + length run \<le> length rest" using rest by simp
  moreover have ilt: "i \<le> length s"
  proof (rule ccontr)
    assume "\<not> i \<le> length s"
    then have "rest = []" by (simp add: rest_def)
    then show False using ne rest by simp
  qed
  ultimately show "j + length m \<le> length s" using jm len by simp
  have dj: "drop j s = run @ after"
  proof -
    have "drop j s = drop (length gap) rest"
      by (simp add: jm rest_def add.commute)
    also have "\<dots> = run @ after" using rest by simp
    finally show ?thesis .
  qed
  show "take (length m) (drop j s) = m" using dj jm by simp
  show "\<forall>c \<in> set m. \<not> isWhiteSpace c"
    using jm by (auto simp: run_def dest: set_takeWhileD)
  have tk: "take (j - i) (drop i s) = gap"
    using rest jm by (simp add: rest_def[symmetric])
  show "\<forall>c \<in> set (take (j - i) (drop i s)). isWhiteSpace c"
    unfolding tk by (auto simp: gap_def dest: set_takeWhileD)
  have da: "drop (j + length m) s = after"
  proof -
    have "drop (j + length m) s = drop (length m) (drop j s)"
      by (simp add: add.commute)
    also have "\<dots> = after" using dj jm by simp
    finally show ?thesis .
  qed
  show "drop i s = take (j - i) (drop i s) @ m @ drop (j + length m) s"
    unfolding tk da using rest jm by (simp add: rest_def)
  show "drop (j + length m) s \<noteq> [] \<longrightarrow> isWhiteSpace (hd (drop (j + length m) s))"
    unfolding da after_def by (metis (mono_tags, lifting) hd_dropWhile)
qed

lemma regexExec_None:
  assumes "regexExec s i = None"
  shows "\<forall>c \<in> set (drop i s). isWhiteSpace c"
proof -
  from assms have "takeWhile (\<lambda>c. \<not> isWhiteSpace c) (dropWhile isWhiteSpace (drop i s)) = []"
    by (auto simp: regexExec_def Let_def split: if_splits)
  then have "dropWhile isWhiteSpace (drop i s) = []"
    by (metis (mono_tags, lifting) hd_dropWhile takeWhile_eq_Nil_iff)
  then show ?thesis by (simp add: dropWhile_eq_Nil_conv)
qed

lemma splitLoop_append:
  "splitLoop s sid i k ws = ws @ splitLoop s sid i k []"
proof (induction "length s - i" arbitrary: i k ws rule: less_induct)
  case less
  show ?case
  proof (cases "regexExec s i")
    case None
    then show ?thesis by (simp add: splitLoop.simps)
  next
    case (Some p)
    obtain j m where p: "p = (j, m)" by (cases p)
    with Some have ex: "regexExec s i = Some (j, m)" by simp
    from regexExec_Some(1,2,3)[OF ex]
    have dec: "length s - (j + length m) < length s - i" by (cases m) auto
    let ?w = "\<lparr>w_id = sid @ ''-word-'' @ showNat k, w_text = m,
               startIndex = j, endIndex = j + length m\<rparr>"
    have "splitLoop s sid i k ws = splitLoop s sid (j + length m) (Suc k) (ws @ [?w])"
      using ex by (subst splitLoop.simps) simp
    also have "\<dots> = (ws @ [?w]) @ splitLoop s sid (j + length m) (Suc k) []"
      by (rule less.hyps[OF dec])
    finally have l: "splitLoop s sid i k ws = ws @ ?w # splitLoop s sid (j + length m) (Suc k) []"
      by simp
    have "splitLoop s sid i k [] = splitLoop s sid (j + length m) (Suc k) ([] @ [?w])"
      using ex by (subst splitLoop.simps) simp
    also have "\<dots> = ([] @ [?w]) @ splitLoop s sid (j + length m) (Suc k) []"
      by (rule less.hyps[OF dec])
    finally have r: "splitLoop s sid i k [] = ?w # splitLoop s sid (j + length m) (Suc k) []"
      by simp
    show ?thesis unfolding l r by simp
  qed
qed

lemma splitLoop_None:
  "regexExec s i = None \<Longrightarrow> splitLoop s sid i k [] = []"
  by (simp add: splitLoop.simps)

lemma splitLoop_Some:
  assumes "regexExec s i = Some (j, m)"
  shows "splitLoop s sid i k [] =
           \<lparr>w_id = sid @ ''-word-'' @ showNat k, w_text = m,
             startIndex = j, endIndex = j + length m\<rparr>
           # splitLoop s sid (j + length m) (Suc k) []"
proof -
  have "splitLoop s sid i k [] =
          splitLoop s sid (j + length m) (Suc k)
            ([] @ [\<lparr>w_id = sid @ ''-word-'' @ showNat k, w_text = m,
                     startIndex = j, endIndex = j + length m\<rparr>])"
    using assms by (subst splitLoop.simps) simp
  then show ?thesis by (simp add: splitLoop_append[where ws = "[_]"])
qed

lemma substring_run:
  assumes "j + length m \<le> length s" "take (length m) (drop j s) = m"
  shows "substring s j (j + length m) = m"
  using assms by (simp add: substring_def Let_def min_def max_def)

lemma splitLoop_concat:
  "concat (map (wordSubstring s) (splitLoop s sid i k [])) =
     filter (\<lambda>c. \<not> isWhiteSpace c) (drop i s)"
proof (induction "length s - i" arbitrary: i k rule: less_induct)
  case less
  show ?case
  proof (cases "regexExec s i")
    case None
    from regexExec_None[OF None] have "filter (\<lambda>c. \<not> isWhiteSpace c) (drop i s) = []"
      by (simp add: filter_empty_conv)
    then show ?thesis by (simp add: splitLoop_None[OF None])
  next
    case (Some p)
    obtain j m where p: "p = (j, m)" by (cases p)
    with Some have ex: "regexExec s i = Some (j, m)" by simp
    note f = regexExec_Some[OF ex]
    have dec: "length s - (j + length m) < length s - i" using f(1,2,3) by (cases m) auto
    have gap: "filter (\<lambda>c. \<not> isWhiteSpace c) (take (j - i) (drop i s)) = []"
      using f(6) by (simp add: filter_empty_conv)
    have run: "filter (\<lambda>c. \<not> isWhiteSpace c) m = m"
      using f(5) by (simp add: filter_id_conv)
    have "filter (\<lambda>c. \<not> isWhiteSpace c) (drop i s) =
            filter (\<lambda>c. \<not> isWhiteSpace c) (take (j - i) (drop i s) @ m @ drop (j + length m) s)"
      using f(7) by simp
    also have "\<dots> = m @ filter (\<lambda>c. \<not> isWhiteSpace c) (drop (j + length m) s)"
      using gap run by simp
    finally have rhs: "filter (\<lambda>c. \<not> isWhiteSpace c) (drop i s) =
                         m @ filter (\<lambda>c. \<not> isWhiteSpace c) (drop (j + length m) s)" .
    show ?thesis
      unfolding splitLoop_Some[OF ex] rhs
      using less.hyps[OF dec] substring_run[OF f(3) f(4)]
      by (simp add: wordSubstring_def)
  qed
qed

lemma splitLoop_words:
  "list_all (wordOk s i) (splitLoop s sid i k []) \<and>
   sorted_wrt (\<lambda>a b. endIndex a \<le> startIndex b) (splitLoop s sid i k [])"
proof (induction "length s - i" arbitrary: i k rule: less_induct)
  case less
  show ?case
  proof (cases "regexExec s i")
    case None
    then show ?thesis by (simp add: splitLoop_None[OF None])
  next
    case (Some p)
    obtain j m where p: "p = (j, m)" by (cases p)
    with Some have ex: "regexExec s i = Some (j, m)" by simp
    note f = regexExec_Some[OF ex]
    have dec: "length s - (j + length m) < length s - i" using f(1,2,3) by (cases m) auto
    let ?w = "\<lparr>w_id = sid @ ''-word-'' @ showNat k, w_text = m,
               startIndex = j, endIndex = j + length m\<rparr>"
    let ?rest = "splitLoop s sid (j + length m) (Suc k) []"
    from less.hyps[OF dec, of "Suc k"]
    have ih1: "list_all (wordOk s (j + length m)) ?rest"
      and ih2: "sorted_wrt (\<lambda>a b. endIndex a \<le> startIndex b) ?rest" by simp_all
    have sub: "wordSubstring s ?w = m"
      using substring_run[OF f(3) f(4)] by (simp add: wordSubstring_def)
    have w: "wordOk s i ?w"
      unfolding wordOk_def sub using f(1,2,3,5) by (auto simp: list_ex_iff)
    have mono: "wordOk s (j + length m) v \<Longrightarrow> wordOk s i v" for v
      using f(1) by (auto simp: wordOk_def)
    have all: "list_all (wordOk s i) ?rest"
      using ih1 mono by (auto simp: list_all_iff)
    have after: "endIndex ?w \<le> startIndex v" if v: "v \<in> set ?rest" for v
      using ih1 v by (auto simp: list_all_iff wordOk_def)
    show ?thesis
      unfolding splitLoop_Some[OF ex] using w all ih2 after by simp
  qed
qed

lemma hello_world_words:
  "splitIntoWords ''Hello world'' ''segment-0'' =
     [\<lparr>w_id = ''segment-0-word-0'', w_text = ''Hello'', startIndex = 0, endIndex = 5\<rparr>,
      \<lparr>w_id = ''segment-0-word-1'', w_text = ''world'', startIndex = 6, endIndex = 11\<rparr>]"
  by code_simp

text \<open>
  Claim C4. For every segment text, concatenating the substrings that the words'
  offsets address, in word order, gives exactly the text with every white-space code
  unit removed.
\<close>

theorem words_concat_nonwhitespace:
  "concat (map (wordSubstring s) (splitIntoWords s segmentId)) =
     filter (\<lambda>c. \<not> isWhiteSpace c) s"
  using splitLoop_concat[of s segmentId 0 0] by (simp add: splitIntoWords_def)

theorem words_concat_nonwhitespace_witness:
  "concat (map (wordSubstring ''Hello world'') (splitIntoWords ''Hello world'' ''segment-0'')) =
     ''Helloworld''"
  using words_concat_nonwhitespace[of "''Hello world''" "''segment-0''"]
  by (simp add: isWhiteSpace_def)

text \<open>
  Claim C5. In the words of a segment, a word that precedes another ends no later than
  the other starts, so the start offsets increase strictly and no two words overlap;
  every word is non-empty, lies inside the text, carries the substring its offsets
  address, and that substring has no white-space code unit.
\<close>

theorem word_offsets_ordered:
  "(\<forall>w \<in> set (splitIntoWords s segmentId).
      startIndex w < endIndex w \<and> endIndex w \<le> length s \<and>
      w_text w = wordSubstring s w \<and>
      (\<forall>c \<in> set (wordSubstring s w). \<not> isWhiteSpace c)) \<and>
   (\<forall>i j. i < j \<and> j < length (splitIntoWords s segmentId) \<longrightarrow>
      endIndex (splitIntoWords s segmentId ! i) \<le> startIndex (splitIntoWords s segmentId ! j) \<and>
      startIndex (splitIntoWords s segmentId ! i) < startIndex (splitIntoWords s segmentId ! j))"
proof -
  let ?ws = "splitIntoWords s segmentId"
  have all: "list_all (wordOk s 0) ?ws"
    and srt: "sorted_wrt (\<lambda>a b. endIndex a \<le> startIndex b) ?ws"
    using splitLoop_words[of s 0 segmentId 0] by (simp_all add: splitIntoWords_def)
  have each: "startIndex w < endIndex w \<and> endIndex w \<le> length s \<and>
      w_text w = wordSubstring s w \<and> (\<forall>c \<in> set (wordSubstring s w). \<not> isWhiteSpace c)"
    if "w \<in> set ?ws" for w
    using all that by (auto simp: list_all_iff wordOk_def list_ex_iff)
  have pair: "endIndex (?ws ! i) \<le> startIndex (?ws ! j) \<and> startIndex (?ws ! i) < startIndex (?ws ! j)"
    if "i < j" "j < length ?ws" for i j
  proof -
    from srt that have le: "endIndex (?ws ! i) \<le> startIndex (?ws ! j)"
      by (simp add: sorted_wrt_iff_nth_less)
    from that have "?ws ! i \<in> set ?ws" by simp
    from each[OF this] have "startIndex (?ws ! i) < endIndex (?ws ! i)" by simp
    with le show ?thesis by simp
  qed
  show ?thesis using each pair by blast
qed

theorem word_offsets_ordered_witness:
  "(0::nat) < 1 \<and> 1 < length (splitIntoWords ''Hello world'' ''segment-0'') \<and>
   endIndex (splitIntoWords ''Hello world'' ''segment-0'' ! 0) = 5 \<and>
   startIndex (splitIntoWords ''Hello world'' ''segment-0'' ! 1) = 6 \<and>
   endIndex (splitIntoWords ''Hello world'' ''segment-0'' ! 0)
     \<le> startIndex (splitIntoWords ''Hello world'' ''segment-0'' ! 1) \<and>
   list_all (\<lambda>w. list_all (\<lambda>c. \<not> isWhiteSpace c) (wordSubstring ''Hello world'' w))
     (splitIntoWords ''Hello world'' ''segment-0'')"
  using word_offsets_ordered[of "''Hello world''" "''segment-0''"]
  by (simp add: hello_world_words list_all_iff)

section \<open>Properties of the timed-text parser\<close>

lemma showNat_0: "showNat 0 = ''0''"
  by (simp add: showNat.simps digitChar_def)

lemma forEachText_eq:
  "forEachText b k es segs =
     segs @ map (\<lambda>i. parseElement b (k + i) (es ! i)) [0..<length es]"
proof (induction es arbitrary: k segs)
  case Nil
  then show ?case by simp
next
  case (Cons e es)
  show ?case
    by (simp add: Cons.IH map_upt_Suc del: upt_Suc)
qed

lemma parseXml_eq:
  "parseXml b xml =
     map (\<lambda>i. parseElement b i (queryTextElements b xml ! i)) [0..<length (queryTextElements b xml)]"
  by (simp add: parseXml_def forEachText_eq)

lemma parseXml_empty: "parseXml b xml = [] \<longleftrightarrow> queryTextElements b xml = []"
  by (simp add: parseXml_eq)

lemma parseXml_hello: "parseXml pageA helloXml = [helloSegment]"
  using hello_world_words
  by (simp add: parseXml_def pageA_def blankPage_def helloElement_def helloSegment_def
      parseElement_def Let_def orElse_def showNat_0 demoParseFloat_def toDouble_7_2)

text \<open>
  Claim C3. The parser makes one segment of every \<open>text\<close> element, in document
  order: segment \<open>i\<close> has the id \<open>segment-i\<close>, its start time is \<open>parseFloat\<close> of the
  \<open>start\<close> attribute, its end time is start plus \<open>parseFloat\<close> of \<open>dur\<close>, a missing
  attribute is read as \<open>'0'\<close>, its text is the decoded body and its words are the split
  of that text. When the document has the single element with start 1.0, dur 2.5 and
  body \<open>Hello world\<close>, the result is one segment from 1.0 to 3.5 with the words
  \<open>Hello\<close> at (0,5) and \<open>world\<close> at (6,11).
\<close>

theorem parseXml_segments:
  "length (parseXml b xml) = length (queryTextElements b xml) \<and>
   (\<forall>i < length (queryTextElements b xml).
      s_id (parseXml b xml ! i) = ''segment-'' @ showNat i \<and>
      startTime (parseXml b xml ! i) =
        parseFloat b (orElse (attr_start (queryTextElements b xml ! i)) ''0'') \<and>
      endTime (parseXml b xml ! i) =
        js_add (startTime (parseXml b xml ! i))
          (parseFloat b (orElse (attr_dur (queryTextElements b xml ! i)) ''0'')) \<and>
      s_text (parseXml b xml ! i) = textareaDecode b (textContent (queryTextElements b xml ! i)) \<and>
      s_words (parseXml b xml ! i) =
        splitIntoWords (s_text (parseXml b xml ! i)) (s_id (parseXml b xml ! i)) \<and>
      (attr_start (queryTextElements b xml ! i) = None \<longrightarrow>
         startTime (parseXml b xml ! i) = parseFloat b ''0'') \<and>
      (attr_dur (queryTextElements b xml ! i) = None \<longrightarrow>
         endTime (parseXml b xml ! i) = js_add (startTime (parseXml b xml ! i)) (parseFloat b ''0''))) \<and>
   (queryTextElements b xml =
      [\<lparr>attr_start = Some ''1.0'', attr_dur = Some ''2.5'', textContent = ''Hello world''\<rparr>] \<and>
    parseFloat b ''1.0'' = Num 1 \<and> parseFloat b ''2.5'' = Num 2.5 \<and>
    textareaDecode b ''Hello world'' = ''Hello world'' \<longrightarrow>
    parseXml b xml =
      [\<lparr>s_id = ''segment-0'', startTime = Num 1, endTime = Num 3.5, s_text = ''Hello world'',
        s_words =
          [\<lparr>w_id = ''segment-0-word-0'', w_text = ''Hello'', startIndex = 0, endIndex = 5\<rparr>,
           \<lparr>w_id = ''segment-0-word-1'', w_text = ''world'', startIndex = 6, endIndex = 11\<rparr>]\<rparr>])"
proof (intro conjI allI impI)
  show "length (parseXml b xml) = length (queryTextElements b xml)"
    by (simp add: parseXml_eq)
next
  fix i assume i: "i < length (queryTextElements b xml)"
  then have nth: "parseXml b xml ! i = parseElement b i (queryTextElements b xml ! i)"
    by (simp add: parseXml_eq)
  show "s_id (parseXml b xml ! i) = ''segment-'' @ showNat i"
    by (simp add: nth parseElement_def Let_def)
  show "startTime (parseXml b xml ! i) =
        parseFloat b (orElse (attr_start (queryTextElements b xml ! i)) ''0'')"
    by (simp add: nth parseElement_def Let_def)
  show "endTime (parseXml b xml ! i) =
        js_add (startTime (parseXml b xml ! i))
          (parseFloat b (orElse (attr_dur (queryTextElements b xml ! i)) ''0''))"
    by (simp add: nth parseElement_def Let_def)
  show "s_text (parseXml b xml ! i) = textareaDecode b (textContent (queryTextElements b xml ! i))"
    by (simp add: nth parseElement_def Let_def)
  show "s_words (parseXml b xml ! i) =
        splitIntoWords (s_text (parseXml b xml ! i)) (s_id (parseXml b xml ! i))"
    by (simp add: nth parseElement_def Let_def)
  show "startTime (parseXml b xml ! i) = parseFloat b ''0''"
    if "attr_start (queryTextElements b xml ! i) = None"
    using that by (simp add: nth parseElement_def Let_def orElse_def)
  show "endTime (parseXml b xml ! i) = js_add (startTime (parseXml b xml ! i)) (parseFloat b ''0'')"
    if "attr_dur (queryTextElements b xml ! i) = None"
    using that by (simp add: nth parseElement_def Let_def orElse_def)
next
  assume a: "queryTextElements b xml =
      [\<lparr>attr_start = Some ''1.0'', attr_dur = Some ''2.5'', textContent = ''Hello world''\<rparr>] \<and>
    parseFloat b ''1.0'' = Num 1 \<and> parseFloat b ''2.5'' = Num 2.5 \<and>
    textareaDecode b ''Hello world'' = ''Hello world''"
  show "parseXml b xml =
      [\<lparr>s_id = ''segment-0'', startTime = Num 1, endTime = Num 3.5, s_text = ''Hello world'',
        s_words =
          [\<lparr>w_id = ''segment-0-word-0'', w_text = ''Hello'', startIndex = 0, endIndex = 5\<rparr>,
           \<lparr>w_id = ''segment-0-word-1'', w_text = ''world'', startIndex = 6, endIndex = 11\<rparr>]\<rparr>]"
    using a hello_world_words
    by (simp add: parseXml_def parseElement_def Let_def orElse_def showNat_0 toDouble_7_2)
qed

theorem parseXml_segments_witness:
  "queryTextElements pageA helloXml =
     [\<lparr>attr_start = Some ''1.0'', attr_dur = Some ''2.5'', textContent = ''Hello world''\<rparr>] \<and>
   parseFloat pageA ''1.0'' = Num 1 \<and> parseFloat pageA ''2.5'' = Num 2.5 \<and>
   textareaDecode pageA ''Hello world'' = ''Hello world'' \<and>
   length (parseXml pageA helloXml) = 1 \<and>
   parseXml pageA helloXml =
     [\<lparr>s_id = ''segment-0'', startTime = Num 1, endTime = Num 3.5, s_text = ''Hello world'',
       s_words =
         [\<lparr>w_id = ''segment-0-word-0'', w_text = ''Hello'', startIndex = 0, endIndex = 5\<rparr>,
          \<lparr>w_id = ''segment-0-word-1'', w_text = ''world'', startIndex = 6, endIndex = 11\<rparr>]\<rparr>] \<and>
   (0::nat) < length (queryTextElements barePage bareXml) \<and>
   attr_start (queryTextElements barePage bareXml ! 0) = None \<and>
   attr_dur (queryTextElements barePage bareXml ! 0) = None \<and>
   startTime (parseXml barePage bareXml ! 0) = Num 0 \<and>
   endTime (parseXml barePage bareXml ! 0) = Num 0"
proof -
  have h: "queryTextElements pageA helloXml =
      [\<lparr>attr_start = Some ''1.0'', attr_dur = Some ''2.5'', textContent = ''Hello world''\<rparr>] \<and>
    parseFloat pageA ''1.0'' = Num 1 \<and> parseFloat pageA ''2.5'' = Num 2.5 \<and>
    textareaDecode pageA ''Hello world'' = ''Hello world''"
    by (simp add: pageA_def blankPage_def helloElement_def demoParseFloat_def)
  from parseXml_segments[of pageA helloXml] h
  have p: "parseXml pageA helloXml =
     [\<lparr>s_id = ''segment-0'', startTime = Num 1, endTime = Num 3.5, s_text = ''Hello world'',
       s_words =
         [\<lparr>w_id = ''segment-0-word-0'', w_text = ''Hello'', startIndex = 0, endIndex = 5\<rparr>,
          \<lparr>w_id = ''segment-0-word-1'', w_text = ''world'', startIndex = 6, endIndex = 11\<rparr>]\<rparr>]"
    by blast
  have q: "queryTextElements barePage bareXml = [bareElement]" "parseFloat barePage ''0'' = Num 0"
    by (simp_all add: barePage_def pageA_def blankPage_def demoParseFloat_def)
  have n: "(0::nat) < length (queryTextElements barePage bareXml)"
    "attr_start (queryTextElements barePage bareXml ! 0) = None"
    "attr_dur (queryTextElements barePage bareXml ! 0) = None"
    by (simp_all add: q bareElement_def)
  note at0 = parseXml_segments[of barePage bareXml, THEN conjunct2, THEN conjunct1,
      rule_format, OF n(1)]
  have s0: "startTime (parseXml barePage bareXml ! 0) = parseFloat barePage ''0''"
    using at0 n(2) by blast
  have e0: "endTime (parseXml barePage bareXml ! 0) =
      js_add (startTime (parseXml barePage bareXml ! 0)) (parseFloat barePage ''0'')"
    using at0 n(3) by blast
  have z: "startTime (parseXml barePage bareXml ! 0) = Num 0"
    "endTime (parseXml barePage bareXml ! 0) = Num 0"
    using s0 e0 q(2) by (simp_all add: toDouble_0)
  show ?thesis
    apply (intro conjI)
    using h p n z by simp_all
qed

section \<open>Properties of active-segment resolution\<close>

lemma js_lt_ge_trans: "js_lt t a \<Longrightarrow> js_ge b a \<Longrightarrow> js_lt t b"
  by (cases t; cases a; cases b) auto

lemma js_ge_trans: "js_ge c b \<Longrightarrow> js_ge b a \<Longrightarrow> js_ge c a"
  by (cases a; cases b; cases c) auto

lemma js_lt_not_ge: "js_lt t a \<Longrightarrow> \<not> js_ge t a"
  by (cases t; cases a) auto

lemma js_ge_not_lt: "js_ge t a \<Longrightarrow> \<not> js_lt t a"
  by (cases t; cases a) auto

lemma before_first:
  "orderedSegments segs \<Longrightarrow> segs \<noteq> [] \<Longrightarrow> js_lt t (startTime (hd segs)) \<Longrightarrow>
     \<forall>s \<in> set segs. \<not> activeAt t s"
proof (induction segs rule: orderedSegments.induct)
  case 1
  then show ?case by simp
next
  case (2 a)
  then show ?case by (auto simp: activeAt_def dest: js_lt_not_ge)
next
  case (3 a c rest)
  from 3(2) have o: "js_ge (endTime a) (startTime a)" "js_ge (startTime c) (endTime a)"
    "orderedSegments (c # rest)" by simp_all
  from 3(4) have ta: "js_lt t (startTime a)" by simp
  then have "js_lt t (endTime a)" using o(1) by (rule js_lt_ge_trans)
  then have "js_lt t (startTime c)" using o(2) by (rule js_lt_ge_trans)
  with 3(1)[OF o(3)] have "\<forall>s \<in> set (c # rest). \<not> activeAt t s" by simp
  moreover have "\<not> activeAt t a" using ta by (auto simp: activeAt_def dest: js_lt_not_ge)
  ultimately show ?case by simp
qed

lemma last_after_start:
  "orderedSegments segs \<Longrightarrow> segs \<noteq> [] \<Longrightarrow> js_ge (endTime (last segs)) (startTime (hd segs))"
proof (induction segs rule: orderedSegments.induct)
  case 1
  then show ?case by simp
next
  case (2 a)
  then show ?case by simp
next
  case (3 a c rest)
  from 3(2) have o: "js_ge (endTime a) (startTime a)" "js_ge (startTime c) (endTime a)"
    "orderedSegments (c # rest)" by simp_all
  from 3(1)[OF o(3)] have "js_ge (endTime (last (c # rest))) (startTime c)" by simp
  then have "js_ge (endTime (last (c # rest))) (endTime a)" using o(2) by (rule js_ge_trans)
  then have "js_ge (endTime (last (c # rest))) (startTime a)" using o(1) by (rule js_ge_trans)
  then show ?case by simp
qed

lemma after_last:
  "orderedSegments segs \<Longrightarrow> segs \<noteq> [] \<Longrightarrow> js_ge t (endTime (last segs)) \<Longrightarrow>
     \<forall>s \<in> set segs. \<not> activeAt t s"
proof (induction segs rule: orderedSegments.induct)
  case 1
  then show ?case by simp
next
  case (2 a)
  then show ?case by (auto simp: activeAt_def dest: js_ge_not_lt)
next
  case (3 a c rest)
  from 3(2) have o: "js_ge (endTime a) (startTime a)" "js_ge (startTime c) (endTime a)"
    "orderedSegments (c # rest)" by simp_all
  from 3(4) have tl: "js_ge t (endTime (last (c # rest)))" by simp
  with 3(1)[OF o(3)] have r: "\<forall>s \<in> set (c # rest). \<not> activeAt t s" by simp
  from last_after_start[OF o(3)] have "js_ge (endTime (last (c # rest))) (startTime c)" by simp
  with tl have "js_ge t (startTime c)" by (rule js_ge_trans)
  then have "js_ge t (endTime a)" using o(2) by (rule js_ge_trans)
  then have "\<not> activeAt t a" by (auto simp: activeAt_def dest: js_ge_not_lt)
  with r show ?case by simp
qed

lemma getCurrentSegment_find: "getCurrentSegment ex t = find (activeAt t) (subtitles ex)"
  by (simp add: getCurrentSegment_def activeAt_def[abs_def])

text \<open>
  Claim C6. \<open>getCurrentSegment\<close> (and the same \<open>find\<close> in the overlay component)
  returns the first segment, in sequence order, with \<open>startTime \<le> t < endTime\<close>, and
  none exactly when no segment satisfies it. The result depends on nothing but the
  sequence and \<open>t\<close>, so a repeated query gives the same answer. On an ordered,
  non-overlapping sequence the result is none for \<open>t\<close> before the first start and for
  \<open>t\<close> at or after the last end.
\<close>

theorem active_segment_resolution:
  "(getCurrentSegment ex t = None \<longleftrightarrow> (\<forall>seg \<in> set (subtitles ex). \<not> activeAt t seg)) \<and>
   (\<forall>seg. getCurrentSegment ex t = Some seg \<longleftrightarrow>
      (\<exists>i < length (subtitles ex). subtitles ex ! i = seg \<and> activeAt t seg \<and>
         (\<forall>j < i. \<not> activeAt t (subtitles ex ! j)))) \<and>
   currentSegment (subtitles ex) t = getCurrentSegment ex t \<and>
   (\<forall>ex'. subtitles ex' = subtitles ex \<longrightarrow> getCurrentSegment ex' t = getCurrentSegment ex t) \<and>
   (orderedSegments (subtitles ex) \<and> subtitles ex \<noteq> [] \<and>
    (js_lt t (startTime (hd (subtitles ex))) \<or> js_ge t (endTime (last (subtitles ex)))) \<longrightarrow>
      getCurrentSegment ex t = None)"
proof (intro conjI allI impI)
  show "getCurrentSegment ex t = None \<longleftrightarrow> (\<forall>seg \<in> set (subtitles ex). \<not> activeAt t seg)"
    by (auto simp: getCurrentSegment_find find_None_iff)
next
  fix seg
  show "getCurrentSegment ex t = Some seg \<longleftrightarrow>
      (\<exists>i < length (subtitles ex). subtitles ex ! i = seg \<and> activeAt t seg \<and>
         (\<forall>j < i. \<not> activeAt t (subtitles ex ! j)))"
    unfolding getCurrentSegment_find find_Some_iff by auto
next
  show "currentSegment (subtitles ex) t = getCurrentSegment ex t"
    by (simp add: currentSegment_def getCurrentSegment_def)
next
  fix ex' :: extractor assume "subtitles ex' = subtitles ex"
  then show "getCurrentSegment ex' t = getCurrentSegment ex t"
    by (simp add: getCurrentSegment_def)
next
  assume a: "orderedSegments (subtitles ex) \<and> subtitles ex \<noteq> [] \<and>
    (js_lt t (startTime (hd (subtitles ex))) \<or> js_ge t (endTime (last (subtitles ex))))"
  then have "\<forall>s \<in> set (subtitles ex). \<not> activeAt t s"
    using before_first[of "subtitles ex" t] after_last[of "subtitles ex" t] by blast
  then show "getCurrentSegment ex t = None"
    by (auto simp: getCurrentSegment_find find_None_iff)
qed

theorem active_segment_resolution_witness:
  "orderedSegments threeSegments \<and> threeSegments \<noteq> [] \<and>
   js_lt (Num (1 / 2)) (startTime (hd threeSegments)) \<and>
   getCurrentSegment \<lparr>videoId = None, subtitles = threeSegments\<rparr> (Num (1 / 2)) = None \<and>
   js_ge (Num 8) (endTime (last threeSegments)) \<and>
   getCurrentSegment \<lparr>videoId = None, subtitles = threeSegments\<rparr> (Num 8) = None \<and>
   getCurrentSegment \<lparr>videoId = None, subtitles = threeSegments\<rparr> (Num 3) =
     Some (threeSegments ! 1) \<and>
   activeAt (Num (5 / 2)) (overlappingSegments ! 0) \<and>
   activeAt (Num (5 / 2)) (overlappingSegments ! 1) \<and>
   getCurrentSegment \<lparr>videoId = Some ''A'', subtitles = overlappingSegments\<rparr> (Num (5 / 2)) =
     Some (overlappingSegments ! 0) \<and>
   getCurrentSegment \<lparr>videoId = Some ''B'', subtitles = threeSegments\<rparr> (Num 3) =
     getCurrentSegment \<lparr>videoId = None, subtitles = threeSegments\<rparr> (Num 3)"
proof -
  have o: "orderedSegments threeSegments \<and> threeSegments \<noteq> [] \<and>
      js_lt (Num (1 / 2)) (startTime (hd threeSegments)) \<and>
      js_ge (Num 8) (endTime (last threeSegments))"
    by (simp add: threeSegments_def)
  from active_segment_resolution[of "\<lparr>videoId = None, subtitles = threeSegments\<rparr>" "Num (1 / 2)"] o
  have a: "getCurrentSegment \<lparr>videoId = None, subtitles = threeSegments\<rparr> (Num (1 / 2)) = None"
    by simp
  from active_segment_resolution[of "\<lparr>videoId = None, subtitles = threeSegments\<rparr>" "Num 8"] o
  have b: "getCurrentSegment \<lparr>videoId = None, subtitles = threeSegments\<rparr> (Num 8) = None"
    by simp
  have c: "getCurrentSegment \<lparr>videoId = None, subtitles = threeSegments\<rparr> (Num 3) =
     Some (threeSegments ! 1)"
    by (simp add: getCurrentSegment_def threeSegments_def)
  have d: "activeAt (Num (5 / 2)) (overlappingSegments ! 0) \<and>
     activeAt (Num (5 / 2)) (overlappingSegments ! 1) \<and>
     getCurrentSegment \<lparr>videoId = Some ''A'', subtitles = overlappingSegments\<rparr> (Num (5 / 2)) =
       Some (overlappingSegments ! 0)"
    by (simp add: getCurrentSegment_def overlappingSegments_def activeAt_def)
  have e: "getCurrentSegment \<lparr>videoId = Some ''B'', subtitles = threeSegments\<rparr> (Num 3) =
     getCurrentSegment \<lparr>videoId = None, subtitles = threeSegments\<rparr> (Num 3)"
    by (rule active_segment_resolution[of "\<lparr>videoId = None, subtitles = threeSegments\<rparr>" "Num 3",
          THEN conjunct2, THEN conjunct2, THEN conjunct2, THEN conjunct1, rule_format]) simp
  from o a b c d e show ?thesis by simp
qed


section \<open>Properties of the caption locator\<close>

lemma fallback_usable:
  "fetchPlayerResponseFallback b vid = Some r \<Longrightarrow> hasCaptions r"
  by (auto simp: fetchPlayerResponseFallback_def
      split: fetch_result.splits option.splits if_splits)

lemma includes_scriptA: "includesText scriptA ''ytInitialPlayerResponse''"
  by (simp add: scriptA_def)

lemma scan_pageA: "scanScripts pageA (scripts pageA) = Some captionedResponse"
  by (simp add: pageA_def blankPage_def scriptCandidate_def includes_scriptA captionedResponse_def)

lemma hasCaptions_captioned: "hasCaptions captionedResponse"
  by (simp add: hasCaptions_def captionedResponse_def)

lemma getPlayerResponse_pageA: "getPlayerResponse pageA = Some captionedResponse"
  using scan_pageA by (simp add: getPlayerResponse_def pageA_def blankPage_def)

lemma scan_shadowed: "scanScripts shadowedPageA (scripts shadowedPageA) = Some captionedResponse"
  by (simp add: shadowedPageA_def pageA_def blankPage_def scriptCandidate_def includes_scriptA
      captionedResponse_def)

lemma scanScripts_first:
  "scanScripts b ss = firstOf (\<lambda>r. r \<noteq> None) (map (scriptCandidate b) ss)"
  by (induction ss) (auto simp: firstOf_def split: option.splits)

lemma scriptCandidate_Some:
  "scriptCandidate b content = Some json \<longleftrightarrow>
     includesText content ''ytInitialPlayerResponse'' \<and>
     (\<exists>m. matchAssignment b content = Some m \<and> jsonParse b m = Some json) \<and>
     captions json \<noteq> None"
  by (auto simp: scriptCandidate_def split: option.splits)

lemma fetchPlayerResponseFallback_Some:
  "fetchPlayerResponseFallback b vid = Some json \<longleftrightarrow>
     (\<exists>ok st html m.
        fetch b (''https://www.youtube.com/watch?v='' @ vid) = Response ok st html \<and>
        matchAssignment b html = Some m \<and> jsonParse b m = Some json) \<and>
     hasCaptions json"
  by (auto simp: fetchPlayerResponseFallback_def split: fetch_result.splits option.splits)

lemma not_hasCaptions_captionless: "\<not> hasCaptions captionlessResponse"
  by (simp add: hasCaptions_def captionlessResponse_def)

lemma not_hasCaptions_emptyTracks: "\<not> hasCaptions emptyTracksResponse"
  by (simp add: hasCaptions_def emptyTracksResponse_def)

lemma scan_emptyTracks:
  "scanScripts emptyTracksPage (scripts emptyTracksPage) = Some emptyTracksResponse"
  by (simp add: emptyTracksPage_def pageA_def blankPage_def scriptCandidate_def includes_scriptA
      emptyTracksResponse_def)

lemma scan_shadowedLegacy:
  "scanScripts shadowedLegacyPage (scripts shadowedLegacyPage) = Some emptyTracksResponse"
  by (simp add: shadowedLegacyPage_def emptyTracksPage_def pageA_def blankPage_def
      scriptCandidate_def includes_scriptA emptyTracksResponse_def)

text \<open>
  Claim C1, as stated, fails, in two ways. On \<open>shadowedPageA\<close> the window global
  holds a player response without captions, the inline script holds one with a track,
  and the fetch of the watch page is rejected. The script scan is the first strategy
  that would yield a non-empty track list, yet \<open>getPlayerResponse\<close> returns the window
  global, the scan is never consulted, and the extraction ends with no captions. On
  \<open>shadowedLegacyPage\<close> there is no window global, the inline script parses to an
  object whose \<open>captions\<close> member lists no track, and the legacy config holds a
  response with a track: the scan returns the script's object, the legacy config is
  never consulted, and the extraction ends with no captions again.
\<close>

theorem earlier_response_hides_later_captions:
  "ytInitialPlayerResponse shadowedPageA = Some captionlessResponse \<and>
   \<not> hasCaptions captionlessResponse \<and>
   scanScripts shadowedPageA (scripts shadowedPageA) = Some captionedResponse \<and>
   hasCaptions captionedResponse \<and>
   claimedLocator shadowedPageA ''A'' = Some captionedResponse \<and>
   getPlayerResponse shadowedPageA = Some captionlessResponse \<and>
   locatePlayerResponse shadowedPageA ''A'' = None \<and>
   locatePlayerResponse shadowedPageA ''A'' \<noteq> claimedLocator shadowedPageA ''A'' \<and>
   fst (extractSubtitles shadowedPageA None \<lparr>videoId = None, subtitles = []\<rparr>) = [] \<and>
   ytInitialPlayerResponse shadowedLegacyPage = None \<and>
   scanScripts shadowedLegacyPage (scripts shadowedLegacyPage) = Some emptyTracksResponse \<and>
   \<not> hasCaptions emptyTracksResponse \<and>
   raw_player_response shadowedLegacyPage = Some captionedResponse \<and>
   claimedLocator shadowedLegacyPage ''A'' = Some captionedResponse \<and>
   getPlayerResponse shadowedLegacyPage = Some emptyTracksResponse \<and>
   locatePlayerResponse shadowedLegacyPage ''A'' = None \<and>
   locatePlayerResponse shadowedLegacyPage ''A'' \<noteq> claimedLocator shadowedLegacyPage ''A'' \<and>
   fst (extractSubtitles shadowedLegacyPage None \<lparr>videoId = None, subtitles = []\<rparr>) = []"
proof -
  have w: "ytInitialPlayerResponse shadowedPageA = Some captionlessResponse"
    "raw_player_response shadowedPageA = None"
    "getVideoId shadowedPageA = Some ''A''"
    by (simp_all add: shadowedPageA_def pageA_def blankPage_def getVideoId_def)
  note nc = not_hasCaptions_captionless
  have fb: "fetchPlayerResponseFallback shadowedPageA ''A'' = None"
    by (simp add: fetchPlayerResponseFallback_def shadowedPageA_def pageA_def blankPage_def trackUrl_def)
  have g: "getPlayerResponse shadowedPageA = Some captionlessResponse"
    by (simp add: getPlayerResponse_def w)
  have l: "locatePlayerResponse shadowedPageA ''A'' = None"
    by (simp add: locatePlayerResponse_def g nc fb)
  have c: "claimedLocator shadowedPageA ''A'' = Some captionedResponse"
    by (simp add: claimedLocator_def firstOf_def inPageStrategies_def w scan_shadowed usable_def
        nc hasCaptions_captioned)
  have d: "locatePlayerResponse shadowedPageA ''A'' \<noteq> claimedLocator shadowedPageA ''A''"
    by (simp add: l c)
  have e: "fst (extractSubtitles shadowedPageA None \<lparr>videoId = None, subtitles = []\<rparr>) = []"
    by (simp add: extractSubtitles_def extractBody_def w l)
  have w': "ytInitialPlayerResponse shadowedLegacyPage = None"
    "raw_player_response shadowedLegacyPage = Some captionedResponse"
    "getVideoId shadowedLegacyPage = Some ''A''"
    by (simp_all add: shadowedLegacyPage_def emptyTracksPage_def pageA_def blankPage_def
        getVideoId_def)
  note ne = not_hasCaptions_emptyTracks
  have fb': "fetchPlayerResponseFallback shadowedLegacyPage ''A'' = None"
    by (simp add: fetchPlayerResponseFallback_def shadowedLegacyPage_def emptyTracksPage_def
        pageA_def blankPage_def trackUrl_def)
  have g': "getPlayerResponse shadowedLegacyPage = Some emptyTracksResponse"
    by (simp add: getPlayerResponse_def w' scan_shadowedLegacy)
  have l': "locatePlayerResponse shadowedLegacyPage ''A'' = None"
    by (simp add: locatePlayerResponse_def g' ne fb')
  have c': "claimedLocator shadowedLegacyPage ''A'' = Some captionedResponse"
    by (simp add: claimedLocator_def firstOf_def inPageStrategies_def w' scan_shadowedLegacy
        usable_def ne hasCaptions_captioned)
  have d': "locatePlayerResponse shadowedLegacyPage ''A'' \<noteq> claimedLocator shadowedLegacyPage ''A''"
    by (simp add: l' c')
  have e': "fst (extractSubtitles shadowedLegacyPage None \<lparr>videoId = None, subtitles = []\<rparr>) = []"
    by (simp add: extractSubtitles_def extractBody_def w' l')
  show ?thesis
    by (intro conjI w(1) nc scan_shadowed hasCaptions_captioned c g l d e
        w'(1) scan_shadowedLegacy ne w'(2) c' g' l' d' e')
qed

text \<open>
  Claim C1, amended. The window global, the inline-script scan and the legacy config
  are consulted in that order and the first that yields a player response at all is
  taken, whether or not it carries caption tracks. The scan yields the object of the
  first script that mentions the variable, whose assignment is matched and parsed, and
  whose object has a \<open>captions\<close> member, whether or not that member lists a track. The
  background fetch is tried exactly when the response taken is missing or has no
  non-empty caption-track list, and then its result is the one used: the player
  response parsed from the fetched page when a response arrives, the assignment is
  matched and parsed and the object has a non-empty track list, and nothing otherwise.
  A response that is used always has a non-empty track list. Whenever no in-page
  strategy yields a response without a non-empty track list, the response used is that
  of the first strategy, in the order of the claim, that yields a non-empty track list.
\<close>

theorem locator_chain:
  "getPlayerResponse b = firstOf (\<lambda>r. r \<noteq> None) (inPageStrategies b) \<and>
   scanScripts b (scripts b) = firstOf (\<lambda>r. r \<noteq> None) (map (scriptCandidate b) (scripts b)) \<and>
   (scriptCandidate b content = Some json \<longleftrightarrow>
      includesText content ''ytInitialPlayerResponse'' \<and>
      (\<exists>m. matchAssignment b content = Some m \<and> jsonParse b m = Some json) \<and>
      captions json \<noteq> None) \<and>
   locatePlayerResponse b vid =
     (if usable (getPlayerResponse b) then getPlayerResponse b
      else fetchPlayerResponseFallback b vid) \<and>
   (fetchPlayerResponseFallback b vid = Some json \<longleftrightarrow>
      (\<exists>ok st html m.
         fetch b (''https://www.youtube.com/watch?v='' @ vid) = Response ok st html \<and>
         matchAssignment b html = Some m \<and> jsonParse b m = Some json) \<and>
      hasCaptions json) \<and>
   (\<forall>r. locatePlayerResponse b vid = Some r \<longrightarrow> hasCaptions r) \<and>
   ((\<forall>r \<in> set (inPageStrategies b). r = None \<or> usable r) \<longrightarrow>
      locatePlayerResponse b vid = claimedLocator b vid)"
proof -
  have c1: "getPlayerResponse b = firstOf (\<lambda>r. r \<noteq> None) (inPageStrategies b)"
    by (auto simp: getPlayerResponse_def firstOf_def inPageStrategies_def split: option.splits)
  have loc: "locatePlayerResponse b vid =
     (if usable (getPlayerResponse b) then getPlayerResponse b
      else fetchPlayerResponseFallback b vid)"
    by (auto simp: locatePlayerResponse_def usable_def split: option.splits)
  have c5: "\<forall>r. locatePlayerResponse b vid = Some r \<longrightarrow> hasCaptions r"
    unfolding loc using fallback_usable[of b vid]
    by (auto simp: usable_def split: if_splits option.splits)
  have c6: "(\<forall>r \<in> set (inPageStrategies b). r = None \<or> usable r) \<longrightarrow>
      locatePlayerResponse b vid = claimedLocator b vid"
  proof
    assume a: "\<forall>r \<in> set (inPageStrategies b). r = None \<or> usable r"
    have fb: "usable (fetchPlayerResponseFallback b vid) \<or> fetchPlayerResponseFallback b vid = None"
      using fallback_usable[of b vid]
      by (cases "fetchPlayerResponseFallback b vid") (auto simp: usable_def)
    have n: "\<not> usable None" by (simp add: usable_def)
    show "locatePlayerResponse b vid = claimedLocator b vid"
      using a fb n
      by (auto simp: locatePlayerResponse_def claimedLocator_def firstOf_def inPageStrategies_def
          getPlayerResponse_def usable_def split: option.splits)
  qed
  show ?thesis
    by (intro conjI c1 scanScripts_first scriptCandidate_Some loc
        fetchPlayerResponseFallback_Some c5 c6)
qed

text \<open>
  Four pages. On \<open>pageA\<close> only the script scan yields a response, which has a track:
  it is the one used, as the claim says. On \<open>emptyTracksPage\<close> the scan accepts the
  script's object although it lists no track, and since the fetch of the watch page is
  rejected nothing is used. On \<open>fetchOnlyPage\<close> no in-page strategy yields a
  response and the fetched watch page does: it is the one used, and the extraction
  delivers the segment of its caption file.
\<close>

theorem locator_chain_witness:
  "list_all (\<lambda>r. r = None \<or> usable r) (inPageStrategies pageA) \<and>
   locatePlayerResponse pageA ''A'' = Some captionedResponse \<and>
   claimedLocator pageA ''A'' = Some captionedResponse \<and>
   hasCaptions captionedResponse \<and>
   includesText scriptA ''ytInitialPlayerResponse'' \<and>
   matchAssignment emptyTracksPage scriptA = Some ''{A}'' \<and>
   jsonParse emptyTracksPage ''{A}'' = Some emptyTracksResponse \<and>
   captions emptyTracksResponse \<noteq> None \<and> \<not> hasCaptions emptyTracksResponse \<and>
   scriptCandidate emptyTracksPage scriptA = Some emptyTracksResponse \<and>
   scanScripts emptyTracksPage (scripts emptyTracksPage) = Some emptyTracksResponse \<and>
   getPlayerResponse emptyTracksPage = Some emptyTracksResponse \<and>
   locatePlayerResponse emptyTracksPage ''A'' = None \<and>
   getPlayerResponse fetchOnlyPage = None \<and>
   fetch fetchOnlyPage ''https://www.youtube.com/watch?v=A'' = Response True 200 scriptA \<and>
   fetchPlayerResponseFallback fetchOnlyPage ''A'' = Some captionedResponse \<and>
   locatePlayerResponse fetchOnlyPage ''A'' = Some captionedResponse \<and>
   fst (extractSubtitles fetchOnlyPage None \<lparr>videoId = None, subtitles = []\<rparr>) = [helloSegment]"
proof -
  have s: "inPageStrategies pageA = [None, Some captionedResponse, None]"
    using scan_pageA by (simp add: inPageStrategies_def) (simp add: pageA_def blankPage_def)
  have h: "\<forall>r \<in> set (inPageStrategies pageA). r = None \<or> usable r"
    by (simp add: s usable_def hasCaptions_captioned)
  have h': "list_all (\<lambda>r. r = None \<or> usable r) (inPageStrategies pageA)"
    using h by (simp add: list_all_iff)
  note chainA = locator_chain[of pageA _ _ "''A''"]
  have ua: "usable (getPlayerResponse pageA)"
    by (simp add: getPlayerResponse_pageA usable_def hasCaptions_captioned)
  have l: "locatePlayerResponse pageA ''A'' = Some captionedResponse"
    using chainA[THEN conjunct2, THEN conjunct2, THEN conjunct2, THEN conjunct1] ua
    by (simp add: getPlayerResponse_pageA)
  have "locatePlayerResponse pageA ''A'' = claimedLocator pageA ''A''"
    using chainA[THEN conjunct2, THEN conjunct2, THEN conjunct2, THEN conjunct2, THEN conjunct2,
        THEN conjunct2] h by (rule mp)
  with l have c: "claimedLocator pageA ''A'' = Some captionedResponse" by simp
  have hc: "hasCaptions captionedResponse"
    using chainA[THEN conjunct2, THEN conjunct2, THEN conjunct2, THEN conjunct2, THEN conjunct2,
        THEN conjunct1] l by blast
  have e: "matchAssignment emptyTracksPage scriptA = Some ''{A}''"
    "jsonParse emptyTracksPage ''{A}'' = Some emptyTracksResponse"
    "captions emptyTracksResponse \<noteq> None"
    "scripts emptyTracksPage = [scriptA]"
    "ytInitialPlayerResponse emptyTracksPage = None"
    "raw_player_response emptyTracksPage = None"
    by (simp_all add: emptyTracksPage_def pageA_def blankPage_def emptyTracksResponse_def)
  note chainE = locator_chain[of emptyTracksPage scriptA emptyTracksResponse "''A''"]
  have sc: "scriptCandidate emptyTracksPage scriptA = Some emptyTracksResponse"
    using chainE[THEN conjunct2, THEN conjunct2, THEN conjunct1] includes_scriptA e(1,2,3)
    by blast
  have sn: "scanScripts emptyTracksPage (scripts emptyTracksPage) = Some emptyTracksResponse"
    using chainE[THEN conjunct2, THEN conjunct1] by (simp add: e(4) sc firstOf_def)
  have ge: "getPlayerResponse emptyTracksPage = Some emptyTracksResponse"
    using chainE[THEN conjunct1] by (simp add: inPageStrategies_def e(5,6) sn firstOf_def)
  have fe: "fetch emptyTracksPage ''https://www.youtube.com/watch?v=A'' = Rejected"
    by (simp add: emptyTracksPage_def pageA_def blankPage_def trackUrl_def)
  have "fetchPlayerResponseFallback emptyTracksPage ''A'' \<noteq> Some json" for json
    using locator_chain[of emptyTracksPage scriptA json "''A''",
        THEN conjunct2, THEN conjunct2, THEN conjunct2, THEN conjunct2, THEN conjunct1]
    by (simp add: fe)
  then have fbe: "fetchPlayerResponseFallback emptyTracksPage ''A'' = None"
    by (cases "fetchPlayerResponseFallback emptyTracksPage ''A''") auto
  have le: "locatePlayerResponse emptyTracksPage ''A'' = None"
    using chainE[THEN conjunct2, THEN conjunct2, THEN conjunct2, THEN conjunct1]
    by (simp add: ge usable_def not_hasCaptions_emptyTracks fbe)
  have f: "scripts fetchOnlyPage = []" "ytInitialPlayerResponse fetchOnlyPage = None"
    "raw_player_response fetchOnlyPage = None"
    "fetch fetchOnlyPage ''https://www.youtube.com/watch?v=A'' = Response True 200 scriptA"
    "matchAssignment fetchOnlyPage scriptA = Some ''{A}''"
    "jsonParse fetchOnlyPage ''{A}'' = Some captionedResponse"
    "getVideoId fetchOnlyPage = Some ''A''"
    by (simp_all add: fetchOnlyPage_def pageA_def blankPage_def getVideoId_def)
  note chainF = locator_chain[of fetchOnlyPage scriptA captionedResponse "''A''"]
  have gf: "getPlayerResponse fetchOnlyPage = None"
    using chainF[THEN conjunct1] by (simp add: inPageStrategies_def f firstOf_def)
  have ff: "fetchPlayerResponseFallback fetchOnlyPage ''A'' = Some captionedResponse"
    using chainF[THEN conjunct2, THEN conjunct2, THEN conjunct2, THEN conjunct2, THEN conjunct1]
      f(4,5,6) hasCaptions_captioned by auto
  have lf: "locatePlayerResponse fetchOnlyPage ''A'' = Some captionedResponse"
    using chainF[THEN conjunct2, THEN conjunct2, THEN conjunct2, THEN conjunct1]
    by (simp add: gf usable_def ff)
  have xf: "fst (extractSubtitles fetchOnlyPage None \<lparr>videoId = None, subtitles = []\<rparr>) = [helloSegment]"
  proof -
    have t: "getCaptionTracks captionedResponse = Some [\<lparr>baseUrl = trackUrl, languageCode = ''en''\<rparr>]"
      by (simp add: getCaptionTracks_def captionedResponse_def)
    have u: "fetch fetchOnlyPage trackUrl = Response True 200 helloXml"
      by (simp add: fetchOnlyPage_def pageA_def blankPage_def trackUrl_def)
    have q: "parseXml fetchOnlyPage helloXml = parseXml pageA helloXml"
      by (simp add: parseXml_eq parseElement_def fetchOnlyPage_def)
    show ?thesis
      by (simp add: extractSubtitles_def extractBody_def f(7) lf t selectTrack_def firstTrack_def
          truthy_def fetchSubtitles_def u q parseXml_hello Let_def)
  qed
  show ?thesis
    by (intro conjI h' l c hc includes_scriptA e(1) e(2) e(3) not_hasCaptions_emptyTracks
        sc sn ge le gf f(4) ff lf xf)
qed

section \<open>Properties of subtitle extraction\<close>

lemma extractBody_pageA: "extractBody pageA None = Inr [helloSegment]"
proof -
  have f: "fetchSubtitles pageA trackUrl = Inr helloXml"
    by (simp add: fetchSubtitles_def pageA_def blankPage_def)
  have v: "getVideoId pageA = Some ''A''"
    by (simp add: getVideoId_def pageA_def blankPage_def)
  have l: "locatePlayerResponse pageA ''A'' = Some captionedResponse"
    by (simp add: locatePlayerResponse_def getPlayerResponse_pageA hasCaptions_captioned)
  have t: "getCaptionTracks captionedResponse = Some [\<lparr>baseUrl = trackUrl, languageCode = ''en''\<rparr>]"
    by (simp add: getCaptionTracks_def captionedResponse_def)
  show ?thesis
    by (simp add: extractBody_def v l t selectTrack_def truthy_def firstTrack_def f parseXml_hello)
qed

lemma locate_pageB: "locatePlayerResponse pageB ''B'' = None"
  by (simp add: locatePlayerResponse_def getPlayerResponse_def fetchPlayerResponseFallback_def
      pageB_def blankPage_def)

lemma getVideoId_pageB: "getVideoId pageB = Some ''B''"
  by (simp add: getVideoId_def pageB_def blankPage_def)

lemma extractBody_pageB: "extractBody pageB None = Inl NoPlayerResponse"
  by (simp add: extractBody_def getVideoId_pageB locate_pageB)

text \<open>
  Claim C7. \<open>extractSubtitles\<close> returns a list on every input: each error thrown in
  its body is turned into the empty list. In particular the result is empty when the
  URL has no video id, when no strategy yields a player response with captions, when
  the caption fetch is rejected or answers with a bad status, and when the caption
  document has no \<open>text\<close> element; and these failure modes are the only inputs on which
  the result is empty. The caller, \<open>initializeForVideo\<close>, treats the empty list as
  no captions: it leaves the overlay, the host and \<open>isInitialized\<close> as they were.
\<close>

theorem extractSubtitles_absorbs_failures:
  "(\<forall>e. extractBody b language = Inl e \<longrightarrow> fst (extractSubtitles b language ex) = []) \<and>
   (\<not> truthy (getVideoId b) \<longrightarrow> fst (extractSubtitles b language ex) = []) \<and>
   (\<forall>vid. getVideoId b = Some vid \<and> \<not> usable (getPlayerResponse b) \<and>
      fetchPlayerResponseFallback b vid = None \<longrightarrow> fst (extractSubtitles b language ex) = []) \<and>
   (\<forall>vid r tracks track e. getVideoId b = Some vid \<and> locatePlayerResponse b vid = Some r \<and>
      getCaptionTracks r = Some tracks \<and> selectTrack language tracks = Some track \<and>
      fetchSubtitles b (baseUrl track) = Inl e \<longrightarrow> fst (extractSubtitles b language ex) = []) \<and>
   (\<forall>vid r tracks track xml. getVideoId b = Some vid \<and> locatePlayerResponse b vid = Some r \<and>
      getCaptionTracks r = Some tracks \<and> selectTrack language tracks = Some track \<and>
      fetchSubtitles b (baseUrl track) = Inr xml \<and> queryTextElements b xml = [] \<longrightarrow>
      fst (extractSubtitles b language ex) = []) \<and>
   (extractionFailure b language \<longleftrightarrow> fst (extractSubtitles b language ex) = []) \<and>
   (fst (extractSubtitles b None (extractorState w)) = [] \<longrightarrow>
      overlay (initializeForVideo b w) = overlay w \<and>
      hostState (initializeForVideo b w) = hostState w \<and>
      isInitialized (initializeForVideo b w) = isInitialized w)"
proof (intro conjI allI impI)
  fix e assume "extractBody b language = Inl e"
  then show "fst (extractSubtitles b language ex) = []"
    by (simp add: extractSubtitles_def)
next
  assume "\<not> truthy (getVideoId b)"
  then show "fst (extractSubtitles b language ex) = []"
    by (auto simp: extractSubtitles_def extractBody_def truthy_def split: option.splits)
next
  fix vid
  assume a: "getVideoId b = Some vid \<and> \<not> usable (getPlayerResponse b) \<and>
      fetchPlayerResponseFallback b vid = None"
  then have "locatePlayerResponse b vid = None"
    by (auto simp: locatePlayerResponse_def usable_def split: option.splits)
  with a show "fst (extractSubtitles b language ex) = []"
    by (simp add: extractSubtitles_def extractBody_def)
next
  fix vid r tracks track e
  assume "getVideoId b = Some vid \<and> locatePlayerResponse b vid = Some r \<and>
      getCaptionTracks r = Some tracks \<and> selectTrack language tracks = Some track \<and>
      fetchSubtitles b (baseUrl track) = Inl e"
  then show "fst (extractSubtitles b language ex) = []"
    by (simp add: extractSubtitles_def extractBody_def)
next
  fix vid r tracks track xml
  assume "getVideoId b = Some vid \<and> locatePlayerResponse b vid = Some r \<and>
      getCaptionTracks r = Some tracks \<and> selectTrack language tracks = Some track \<and>
      fetchSubtitles b (baseUrl track) = Inr xml \<and> queryTextElements b xml = []"
  then show "fst (extractSubtitles b language ex) = []"
    by (simp add: extractSubtitles_def extractBody_def parseXml_def)
next
  show "extractionFailure b language \<longleftrightarrow> fst (extractSubtitles b language ex) = []"
    by (auto simp: extractionFailure_def extractSubtitles_def extractBody_def parseXml_empty
        split: option.splits sum.splits)
next
  assume none: "fst (extractSubtitles b None (extractorState w)) = []"
  obtain subs ex' where e: "extractSubtitles b None (extractorState w) = (subs, ex')"
    by (cases "extractSubtitles b None (extractorState w)")
  with none have "subs = []" by simp
  with e have "initializeForVideo b w = w\<lparr>extractorState := ex'\<rparr>"
    by (simp add: initializeForVideo_def)
  then show "overlay (initializeForVideo b w) = overlay w"
    "hostState (initializeForVideo b w) = hostState w"
    "isInitialized (initializeForVideo b w) = isInitialized w"
    by simp_all
qed

theorem extractSubtitles_absorbs_failures_witness:
  "\<not> truthy (getVideoId blankPage) \<and>
   fst (extractSubtitles blankPage None \<lparr>videoId = None, subtitles = []\<rparr>) = [] \<and>
   extractBody pageB None = Inl NoPlayerResponse \<and>
   fst (extractSubtitles pageB None \<lparr>videoId = None, subtitles = []\<rparr>) = [] \<and>
   getVideoId emptyTracksPage = Some ''A'' \<and> \<not> usable (getPlayerResponse emptyTracksPage) \<and>
   fetchPlayerResponseFallback emptyTracksPage ''A'' = None \<and>
   fst (extractSubtitles emptyTracksPage None \<lparr>videoId = None, subtitles = []\<rparr>) = [] \<and>
   fetchSubtitles failedFetchPage trackUrl = Inl (FetchSubtitlesFailed 404) \<and>
   fst (extractSubtitles failedFetchPage None \<lparr>videoId = None, subtitles = []\<rparr>) = [] \<and>
   queryTextElements noNodesPage helloXml = [] \<and>
   fst (extractSubtitles noNodesPage None \<lparr>videoId = None, subtitles = []\<rparr>) = [] \<and>
   \<not> extractionFailure pageA None \<and>
   fst (extractSubtitles pageA None \<lparr>videoId = None, subtitles = []\<rparr>) = [helloSegment] \<and>
   fst (extractSubtitles pageB None (extractorState initialWorld)) = [] \<and>
   overlay (initializeForVideo pageB initialWorld) = overlay initialWorld \<and>
   \<not> isInitialized (initializeForVideo pageB initialWorld)"
proof -
  let ?ex = "\<lparr>videoId = None, subtitles = []\<rparr>"
  let ?track = "\<lparr>baseUrl = trackUrl, languageCode = ''en''\<rparr>"
  note T = extractSubtitles_absorbs_failures
  have t: "getCaptionTracks captionedResponse = Some [?track]"
    "selectTrack None [?track] = Some ?track" "baseUrl ?track = trackUrl"
    by (simp_all add: getCaptionTracks_def captionedResponse_def selectTrack_def truthy_def
        firstTrack_def)
  have a: "\<not> truthy (getVideoId blankPage)"
    by (simp add: truthy_def getVideoId_def blankPage_def)
  have a': "fst (extractSubtitles blankPage None ?ex) = []"
    by (rule mp[OF T[of blankPage None ?ex initialWorld, THEN conjunct2, THEN conjunct1] a])
  have b': "fst (extractSubtitles pageB None ?ex) = []"
    by (rule T[of pageB None ?ex initialWorld, THEN conjunct1, rule_format, OF extractBody_pageB])
  have sc: "scanScripts emptyTracksPage (scripts emptyTracksPage) = Some emptyTracksResponse"
    by (simp add: emptyTracksPage_def pageA_def blankPage_def scriptCandidate_def
        includes_scriptA emptyTracksResponse_def)
  have c: "getVideoId emptyTracksPage = Some ''A''"
    "\<not> usable (getPlayerResponse emptyTracksPage)"
    "fetchPlayerResponseFallback emptyTracksPage ''A'' = None"
    using sc
    by (simp_all add: getVideoId_def getPlayerResponse_def usable_def hasCaptions_def
        fetchPlayerResponseFallback_def emptyTracksPage_def pageA_def blankPage_def
        emptyTracksResponse_def trackUrl_def)
  have c': "fst (extractSubtitles emptyTracksPage None ?ex) = []"
    by (rule T[of emptyTracksPage None ?ex initialWorld, THEN conjunct2, THEN conjunct2,
          THEN conjunct1, rule_format, of "''A''"]) (simp add: c)
  have lf: "getVideoId failedFetchPage = Some ''A''"
    "locatePlayerResponse failedFetchPage ''A'' = Some captionedResponse"
    using includes_scriptA
    by (simp_all add: getVideoId_def locatePlayerResponse_def getPlayerResponse_def
        scriptCandidate_def hasCaptions_captioned failedFetchPage_def pageA_def blankPage_def)
       (simp_all add: captionedResponse_def)
  have d: "fetchSubtitles failedFetchPage trackUrl = Inl (FetchSubtitlesFailed 404)"
    by (simp add: fetchSubtitles_def failedFetchPage_def)
  have d': "fst (extractSubtitles failedFetchPage None ?ex) = []"
    by (rule T[of failedFetchPage None ?ex initialWorld, THEN conjunct2, THEN conjunct2,
          THEN conjunct2, THEN conjunct1, rule_format,
          of "''A''" captionedResponse "[?track]" ?track "FetchSubtitlesFailed 404"])
       (simp add: lf t d)
  have ln: "getVideoId noNodesPage = Some ''A''"
    "locatePlayerResponse noNodesPage ''A'' = Some captionedResponse"
    "fetchSubtitles noNodesPage trackUrl = Inr helloXml"
    using includes_scriptA
    by (simp_all add: getVideoId_def locatePlayerResponse_def getPlayerResponse_def
        scriptCandidate_def hasCaptions_captioned fetchSubtitles_def noNodesPage_def pageA_def
        blankPage_def)
       (simp_all add: captionedResponse_def)
  have e: "queryTextElements noNodesPage helloXml = []"
    by (simp add: noNodesPage_def)
  have e': "fst (extractSubtitles noNodesPage None ?ex) = []"
    by (rule T[of noNodesPage None ?ex initialWorld, THEN conjunct2, THEN conjunct2,
          THEN conjunct2, THEN conjunct2, THEN conjunct1, rule_format,
          of "''A''" captionedResponse "[?track]" ?track helloXml])
       (simp add: ln t e)
  have f: "fst (extractSubtitles pageA None ?ex) = [helloSegment]"
    by (simp add: extractSubtitles_def extractBody_pageA)
  have f': "\<not> extractionFailure pageA None"
    using T[of pageA None ?ex initialWorld, THEN conjunct2, THEN conjunct2,
          THEN conjunct2, THEN conjunct2, THEN conjunct2, THEN conjunct1] f
    by simp
  have ew: "extractorState initialWorld = ?ex" "\<not> isInitialized initialWorld"
    by (simp_all add: initialWorld_def)
  have b'': "fst (extractSubtitles pageB None (extractorState initialWorld)) = []"
    using b' ew by simp
  note g0 = T[of pageB None ?ex initialWorld, THEN conjunct2, THEN conjunct2,
          THEN conjunct2, THEN conjunct2, THEN conjunct2, THEN conjunct2, rule_format, OF b'']
  have g: "overlay (initializeForVideo pageB initialWorld) = overlay initialWorld"
    "\<not> isInitialized (initializeForVideo pageB initialWorld)"
    using g0 ew by simp_all
  show ?thesis
    by (intro conjI a a' extractBody_pageB b' c c' d d' e e' f f' b'' g)
qed


section \<open>Properties of the sync tick and of navigation\<close>

lemma session_reached: "checkAndInitialize pageA initialWorld = Some sessionA"
proof -
  have vp: "isVideoPage pageA"
    by (simp add: isVideoPage_def getVideoId_def truthy_def pageA_def blankPage_def)
  have v: "getVideoId pageA = Some ''A''"
    by (simp add: getVideoId_def pageA_def blankPage_def)
  have wp: "waitForPlayer pageA" "hasMoviePlayer pageA" "hasVideo pageA" "videoCurrentTime pageA = Num 0"
    by (simp_all add: waitForPlayer_def pageA_def blankPage_def)
  have ex: "extractSubtitles pageA None \<lparr>videoId = None, subtitles = []\<rparr> =
      ([helloSegment], \<lparr>videoId = Some ''A'', subtitles = [helloSegment]\<rparr>)"
    by (simp add: extractSubtitles_def extractBody_pageA v)
  show ?thesis
    by (simp add: checkAndInitialize_def vp v wp initialWorld_def selectVideo_def
        initializeForVideo_def ex initialize_def startTimeSync_def syncTime_def
        requestAnimationFrame_def render_def setSubtitles_def setOnTranslationRequest_def
        setOnWordSave_def sessionA_def Let_def toDouble_0 pointOne_order)
qed

text \<open>
  The state \<open>rewoundSession\<close> is reached from \<open>sessionA\<close> by two ticks: one when the
  video is at 1 s and one when it is back at \<open>tinyTime\<close>.
\<close>

lemma rewound_reached:
  "syncTime (pageA\<lparr>videoCurrentTime := Num tinyTime\<rparr>)
     (syncTime (pageA\<lparr>videoCurrentTime := Num 1\<rparr>) sessionA) = rewoundSession"
  by (simp add: syncTime_def requestAnimationFrame_def render_def Let_def sessionA_def
      rewoundSession_def toDouble_1 toDouble_rewind pointOne_order)

text \<open>
  Claim C8, as stated, fails, in two ways. In the reachable state \<open>sessionA\<close> the
  video's time equals the stored time, so the tick is inside the dead zone, and still
  the overlay manager's state changes, because every tick stores the handle of the
  animation frame it schedules next. In the reachable state \<open>rewoundSession\<close> the
  stored time is \<open>tinyTime\<close>; with the video at \<open>nextAfterPointOne\<close> the two times
  differ by more than the double \<open>0.1\<close> (and so by more than one tenth), but the
  difference that \<open>-\<close> delivers is rounded to the double \<open>0.1\<close>, which is not
  greater than the threshold: the stored time is not updated and nothing is rendered.
\<close>

theorem dead_zone_tick_deviations:
  "\<not> js_gt (js_abs (js_sub (videoCurrentTime pageA) (currentTime (overlay sessionA))))
        (Num pointOne) \<and>
   animationFrameId (overlay sessionA) = Some 1 \<and>
   animationFrameId (overlay (syncTime pageA sessionA)) = Some 2 \<and>
   overlay (syncTime pageA sessionA) \<noteq> overlay sessionA \<and>
   syncTime (pageA\<lparr>videoCurrentTime := Num tinyTime\<rparr>)
     (syncTime (pageA\<lparr>videoCurrentTime := Num 1\<rparr>) sessionA) = rewoundSession \<and>
   currentTime (overlay rewoundSession) = Num tinyTime \<and>
   1 / 10 < pointOne \<and>
   pointOne < nextAfterPointOne - tinyTime \<and>
   js_sub (Num nextAfterPointOne) (Num tinyTime) = Num pointOne \<and>
   currentTime (overlay (syncTime (pageA\<lparr>videoCurrentTime := Num nextAfterPointOne\<rparr>) rewoundSession)) =
     Num tinyTime \<and>
   renderCount (hostState rewoundSession) = 4 \<and>
   renderCount (hostState (syncTime (pageA\<lparr>videoCurrentTime := Num nextAfterPointOne\<rparr>) rewoundSession)) = 4"
proof -
  have a: "\<not> js_gt (js_abs (js_sub (videoCurrentTime pageA) (currentTime (overlay sessionA))))
        (Num pointOne)"
    by (simp add: pageA_def blankPage_def sessionA_def toDouble_0 pointOne_order)
  have b: "animationFrameId (overlay sessionA) = Some 1"
    by (simp add: sessionA_def)
  have c: "animationFrameId (overlay (syncTime pageA sessionA)) = Some 2"
    by (simp add: syncTime_def requestAnimationFrame_def Let_def pageA_def blankPage_def
        sessionA_def toDouble_0 pointOne_order)
  from b c have d: "overlay (syncTime pageA sessionA) \<noteq> overlay sessionA" by auto
  have r: "currentTime (overlay rewoundSession) = Num tinyTime"
    "renderCount (hostState rewoundSession) = 4"
    by (simp_all add: rewoundSession_def)
  have t: "1 / 10 < pointOne" by (simp add: pointOne_def)
  have j: "js_sub (Num nextAfterPointOne) (Num tinyTime) = Num pointOne"
    by (simp add: toDouble_rounds_to_pointOne)
  have e: "currentTime (overlay (syncTime (pageA\<lparr>videoCurrentTime := Num nextAfterPointOne\<rparr>) rewoundSession)) =
     Num tinyTime"
    "renderCount (hostState (syncTime (pageA\<lparr>videoCurrentTime := Num nextAfterPointOne\<rparr>) rewoundSession)) = 4"
    by (simp_all add: syncTime_def requestAnimationFrame_def render_def Let_def rewoundSession_def
        toDouble_rounds_to_pointOne pointOne_order)
  show ?thesis
    by (intro conjI a b c d rewound_reached r(1) t pointOne_order(5) j e(1) r(2) e(2))
qed

text \<open>
  Claim C8, amended. The tick compares as the code does: the difference of the video's
  current time and the stored time is the double that \<open>-\<close> delivers (the exact
  difference, rounded), and the threshold is the double \<open>0.1\<close>. If the magnitude of
  that difference is greater than the threshold, the stored time becomes the video's
  time and a re-render is requested (\<open>root.render\<close> runs when the root is mounted);
  otherwise the stored time is kept and nothing is rendered. In both cases the tick
  schedules the next animation frame and stores its handle in \<open>animationFrameId\<close>;
  every other field of the overlay manager, the extractor and the content script are
  unchanged.
\<close>

theorem syncTime_effect:
  "(videoElement (overlay w) \<and>
    js_gt (js_abs (js_sub (videoCurrentTime b) (currentTime (overlay w)))) (Num pointOne) \<longrightarrow>
      overlay (syncTime b w) =
        (overlay w)\<lparr>currentTime := videoCurrentTime b,
                    animationFrameId := Some (nextFrame (hostState w))\<rparr> \<and>
      renderCount (hostState (syncTime b w)) =
        (if root (overlay w) then Suc (renderCount (hostState w)) else renderCount (hostState w))) \<and>
   (\<not> (videoElement (overlay w) \<and>
    js_gt (js_abs (js_sub (videoCurrentTime b) (currentTime (overlay w)))) (Num pointOne)) \<longrightarrow>
      overlay (syncTime b w) = (overlay w)\<lparr>animationFrameId := Some (nextFrame (hostState w))\<rparr> \<and>
      renderCount (hostState (syncTime b w)) = renderCount (hostState w)) \<and>
   pendingFrames (hostState (syncTime b w)) = pendingFrames (hostState w) @ [nextFrame (hostState w)] \<and>
   nextFrame (hostState (syncTime b w)) = Suc (nextFrame (hostState w)) \<and>
   overlayAttached (hostState (syncTime b w)) = overlayAttached (hostState w) \<and>
   isInitialized (syncTime b w) = isInitialized w \<and>
   currentVideoId (syncTime b w) = currentVideoId w \<and>
   extractorState (syncTime b w) = extractorState w"
  by (simp add: syncTime_def requestAnimationFrame_def render_def Let_def)

text \<open>
  Five ticks. From \<open>sessionA\<close> (stored time 0): at 1 s the time is stored and the
  overlay rendered; at 1/16 s nothing is stored or rendered; at the double \<open>0.1\<close>,
  which is more than one tenth, nothing is stored either, since the difference equals
  the threshold; at the next double, \<open>nextAfterPointOne\<close>, the time is stored. From
  \<open>rewoundSession\<close> (stored time \<open>tinyTime\<close>) with the video at
  \<open>nextAfterPointOne\<close>: the difference that \<open>-\<close> delivers is the double \<open>0.1\<close>, and
  nothing is stored or rendered.
\<close>

theorem syncTime_effect_witness:
  "videoElement (overlay sessionA) \<and>
   js_gt (js_abs (js_sub (videoCurrentTime (pageA\<lparr>videoCurrentTime := Num 1\<rparr>))
     (currentTime (overlay sessionA)))) (Num pointOne) \<and>
   currentTime (overlay (syncTime (pageA\<lparr>videoCurrentTime := Num 1\<rparr>) sessionA)) = Num 1 \<and>
   renderCount (hostState (syncTime (pageA\<lparr>videoCurrentTime := Num 1\<rparr>) sessionA)) = 3 \<and>
   \<not> js_gt (js_abs (js_sub (videoCurrentTime (pageA\<lparr>videoCurrentTime := Num (1 / 16)\<rparr>))
     (currentTime (overlay sessionA)))) (Num pointOne) \<and>
   currentTime (overlay (syncTime (pageA\<lparr>videoCurrentTime := Num (1 / 16)\<rparr>) sessionA)) = Num 0 \<and>
   renderCount (hostState (syncTime (pageA\<lparr>videoCurrentTime := Num (1 / 16)\<rparr>) sessionA)) = 2 \<and>
   animationFrameId (overlay (syncTime (pageA\<lparr>videoCurrentTime := Num (1 / 16)\<rparr>) sessionA)) = Some 2 \<and>
   1 / 10 < pointOne \<and>
   \<not> js_gt (js_abs (js_sub (videoCurrentTime (pageA\<lparr>videoCurrentTime := Num pointOne\<rparr>))
     (currentTime (overlay sessionA)))) (Num pointOne) \<and>
   currentTime (overlay (syncTime (pageA\<lparr>videoCurrentTime := Num pointOne\<rparr>) sessionA)) = Num 0 \<and>
   renderCount (hostState (syncTime (pageA\<lparr>videoCurrentTime := Num pointOne\<rparr>) sessionA)) = 2 \<and>
   js_gt (js_abs (js_sub (videoCurrentTime (pageA\<lparr>videoCurrentTime := Num nextAfterPointOne\<rparr>))
     (currentTime (overlay sessionA)))) (Num pointOne) \<and>
   currentTime (overlay (syncTime (pageA\<lparr>videoCurrentTime := Num nextAfterPointOne\<rparr>) sessionA)) =
     Num nextAfterPointOne \<and>
   currentTime (overlay rewoundSession) = Num tinyTime \<and>
   \<not> js_gt (js_abs (js_sub (videoCurrentTime (pageA\<lparr>videoCurrentTime := Num nextAfterPointOne\<rparr>))
     (currentTime (overlay rewoundSession)))) (Num pointOne) \<and>
   currentTime (overlay (syncTime (pageA\<lparr>videoCurrentTime := Num nextAfterPointOne\<rparr>) rewoundSession)) =
     Num tinyTime \<and>
   renderCount (hostState (syncTime (pageA\<lparr>videoCurrentTime := Num nextAfterPointOne\<rparr>) rewoundSession)) = 4"
proof -
  have h: "videoElement (overlay sessionA)" "root (overlay sessionA)"
    "currentTime (overlay sessionA) = Num 0" "renderCount (hostState sessionA) = 2"
    "nextFrame (hostState sessionA) = 2"
    by (simp_all add: sessionA_def)
  have r: "videoElement (overlay rewoundSession)" "root (overlay rewoundSession)"
    "currentTime (overlay rewoundSession) = Num tinyTime"
    "renderCount (hostState rewoundSession) = 4"
    by (simp_all add: rewoundSession_def)
  have g1: "js_gt (js_abs (js_sub (videoCurrentTime (pageA\<lparr>videoCurrentTime := Num 1\<rparr>))
     (currentTime (overlay sessionA)))) (Num pointOne)"
    by (simp add: h toDouble_1 pointOne_order)
  have g2: "\<not> js_gt (js_abs (js_sub (videoCurrentTime (pageA\<lparr>videoCurrentTime := Num (1 / 16)\<rparr>))
     (currentTime (overlay sessionA)))) (Num pointOne)"
    using pointOne_order(2) by (simp add: h toDouble_sixteenth)
  have g3: "\<not> js_gt (js_abs (js_sub (videoCurrentTime (pageA\<lparr>videoCurrentTime := Num pointOne\<rparr>))
     (currentTime (overlay sessionA)))) (Num pointOne)"
    by (simp add: h toDouble_pointOne pointOne_order)
  have g4: "js_gt (js_abs (js_sub (videoCurrentTime (pageA\<lparr>videoCurrentTime := Num nextAfterPointOne\<rparr>))
     (currentTime (overlay sessionA)))) (Num pointOne)"
    by (simp add: h toDouble_nextAfterPointOne pointOne_order)
  have g5: "\<not> js_gt (js_abs (js_sub (videoCurrentTime (pageA\<lparr>videoCurrentTime := Num nextAfterPointOne\<rparr>))
     (currentTime (overlay rewoundSession)))) (Num pointOne)"
    by (simp add: r toDouble_rounds_to_pointOne pointOne_order)
  from syncTime_effect[of sessionA "pageA\<lparr>videoCurrentTime := Num 1\<rparr>"] h g1
  have a: "currentTime (overlay (syncTime (pageA\<lparr>videoCurrentTime := Num 1\<rparr>) sessionA)) = Num 1"
    "renderCount (hostState (syncTime (pageA\<lparr>videoCurrentTime := Num 1\<rparr>) sessionA)) = 3"
    by simp_all
  from syncTime_effect[of sessionA "pageA\<lparr>videoCurrentTime := Num (1 / 16)\<rparr>"] h g2
  have b: "currentTime (overlay (syncTime (pageA\<lparr>videoCurrentTime := Num (1 / 16)\<rparr>) sessionA)) = Num 0"
    "renderCount (hostState (syncTime (pageA\<lparr>videoCurrentTime := Num (1 / 16)\<rparr>) sessionA)) = 2"
    "animationFrameId (overlay (syncTime (pageA\<lparr>videoCurrentTime := Num (1 / 16)\<rparr>) sessionA)) = Some 2"
    by simp_all
  from syncTime_effect[of sessionA "pageA\<lparr>videoCurrentTime := Num pointOne\<rparr>"] h g3
  have c: "currentTime (overlay (syncTime (pageA\<lparr>videoCurrentTime := Num pointOne\<rparr>) sessionA)) = Num 0"
    "renderCount (hostState (syncTime (pageA\<lparr>videoCurrentTime := Num pointOne\<rparr>) sessionA)) = 2"
    by simp_all
  from syncTime_effect[of sessionA "pageA\<lparr>videoCurrentTime := Num nextAfterPointOne\<rparr>"] h g4
  have d: "currentTime (overlay (syncTime (pageA\<lparr>videoCurrentTime := Num nextAfterPointOne\<rparr>) sessionA)) =
     Num nextAfterPointOne"
    by simp
  from syncTime_effect[of rewoundSession "pageA\<lparr>videoCurrentTime := Num nextAfterPointOne\<rparr>"] r g5
  have e: "currentTime (overlay (syncTime (pageA\<lparr>videoCurrentTime := Num nextAfterPointOne\<rparr>) rewoundSession)) =
     Num tinyTime"
    "renderCount (hostState (syncTime (pageA\<lparr>videoCurrentTime := Num nextAfterPointOne\<rparr>) rewoundSession)) = 4"
    by simp_all
  have t: "1 / 10 < pointOne" by (simp add: pointOne_def)
  show ?thesis
    by (intro conjI h(1) g1 a b g2 t g3 c g4 d r(3) g5 e)
qed

lemma initialize_reuse:
  "hasMoviePlayer b \<Longrightarrow> container (overlay w) \<Longrightarrow> overlayAttached (hostState w) \<Longrightarrow>
     initialize b w = (True, w)"
  by (simp add: initialize_def)

lemma initializeForVideo_keeps_overlay:
  assumes "hasMoviePlayer b" "root (overlay w)" "container (overlay w)"
    "overlayAttached (hostState w)"
  shows "root (overlay (initializeForVideo b w)) \<and> container (overlay (initializeForVideo b w)) \<and>
     overlayAttached (hostState (initializeForVideo b w)) \<and>
     pendingFrames (hostState (initializeForVideo b w)) = pendingFrames (hostState w) \<and>
     animationFrameId (overlay (initializeForVideo b w)) = animationFrameId (overlay w)"
proof -
  obtain subs ex where e: "extractSubtitles b None (extractorState w) = (subs, ex)"
    by (cases "extractSubtitles b None (extractorState w)")
  let ?w1 = "w\<lparr>extractorState := ex\<rparr>"
  show ?thesis
  proof (cases "subs = []")
    case True
    with e have "initializeForVideo b w = ?w1" by (simp add: initializeForVideo_def)
    with assms show ?thesis by simp
  next
    case False
    have i: "initialize b ?w1 = (True, ?w1)"
      using assms by (simp add: initialize_reuse)
    from e False i have "initializeForVideo b w =
        (setOnWordSave (setOnTranslationRequest (setSubtitles subs ?w1)))\<lparr>isInitialized := True\<rparr>"
      by (simp add: initializeForVideo_def)
    with assms show ?thesis
      by (simp add: setOnWordSave_def setOnTranslationRequest_def setSubtitles_def render_def)
  qed
qed

text \<open>
  Claim C2 does not hold of the code. When \<open>checkAndInitialize\<close> runs on a watch page
  whose video id differs from the current one while an overlay is mounted and attached,
  it tears nothing down: it assigns the new id and goes on to acquisition, so the state
  in which acquisition for the new video begins still has the old overlay manager and
  host state, and the call ends with the old root mounted, the old container attached and
  the old animation frames pending. If the new video has no captions, the overlay with
  the old video's segments and \<open>isInitialized\<close> are left exactly as they were.
\<close>

theorem video_change_skips_teardown:
  "isVideoPage b \<and> waitForPlayer b \<and> getVideoId b \<noteq> currentVideoId w \<and>
   root (overlay w) \<and> container (overlay w) \<and> overlayAttached (hostState w) \<longrightarrow>
     checkAndInitialize b w = Some (initializeForVideo b (selectVideo (getVideoId b) w)) \<and>
     overlay (selectVideo (getVideoId b) w) = overlay w \<and>
     hostState (selectVideo (getVideoId b) w) = hostState w \<and>
     root (overlay (initializeForVideo b (selectVideo (getVideoId b) w))) \<and>
     container (overlay (initializeForVideo b (selectVideo (getVideoId b) w))) \<and>
     overlayAttached (hostState (initializeForVideo b (selectVideo (getVideoId b) w))) \<and>
     pendingFrames (hostState (initializeForVideo b (selectVideo (getVideoId b) w))) =
       pendingFrames (hostState w) \<and>
     (fst (extractSubtitles b None (extractorState w)) = [] \<longrightarrow>
        overlay (initializeForVideo b (selectVideo (getVideoId b) w)) = overlay w \<and>
        isInitialized (initializeForVideo b (selectVideo (getVideoId b) w)) = isInitialized w)"
proof
  assume a: "isVideoPage b \<and> waitForPlayer b \<and> getVideoId b \<noteq> currentVideoId w \<and>
   root (overlay w) \<and> container (overlay w) \<and> overlayAttached (hostState w)"
  let ?w0 = "selectVideo (getVideoId b) w"
  have c: "checkAndInitialize b w = Some (initializeForVideo b ?w0)"
    using a by (simp add: checkAndInitialize_def Let_def)
  have s: "overlay ?w0 = overlay w" "hostState ?w0 = hostState w"
    "extractorState ?w0 = extractorState w" "isInitialized ?w0 = isInitialized w"
    by (simp_all add: selectVideo_def)
  from a have mp: "hasMoviePlayer b" by (simp add: waitForPlayer_def)
  from initializeForVideo_keeps_overlay[of b ?w0] mp a s
  have k: "root (overlay (initializeForVideo b ?w0)) \<and>
     container (overlay (initializeForVideo b ?w0)) \<and>
     overlayAttached (hostState (initializeForVideo b ?w0)) \<and>
     pendingFrames (hostState (initializeForVideo b ?w0)) = pendingFrames (hostState w)"
    by simp
  have n: "overlay (initializeForVideo b ?w0) = overlay w \<and>
        isInitialized (initializeForVideo b ?w0) = isInitialized w"
    if none: "fst (extractSubtitles b None (extractorState w)) = []"
  proof -
    obtain subs ex where e: "extractSubtitles b None (extractorState ?w0) = (subs, ex)"
      by (cases "extractSubtitles b None (extractorState ?w0)")
    with none s have "subs = []" by simp
    with e have "initializeForVideo b ?w0 = ?w0\<lparr>extractorState := ex\<rparr>"
      by (simp add: initializeForVideo_def)
    then show ?thesis using s by simp
  qed
  show "checkAndInitialize b w = Some (initializeForVideo b ?w0) \<and>
     overlay ?w0 = overlay w \<and> hostState ?w0 = hostState w \<and>
     root (overlay (initializeForVideo b ?w0)) \<and>
     container (overlay (initializeForVideo b ?w0)) \<and>
     overlayAttached (hostState (initializeForVideo b ?w0)) \<and>
     pendingFrames (hostState (initializeForVideo b ?w0)) = pendingFrames (hostState w) \<and>
     (fst (extractSubtitles b None (extractorState w)) = [] \<longrightarrow>
        overlay (initializeForVideo b ?w0) = overlay w \<and>
        isInitialized (initializeForVideo b ?w0) = isInitialized w)"
    using c s(1,2) k n by blast
qed

text \<open>
  The instance: \<open>sessionA\<close> is the state the content script reaches on the watch page
  of video A; the page then becomes the watch page of video B, which has no captions.
  Only on a page that is no watch page is the session torn down.
\<close>

theorem video_change_keeps_old_session:
  "checkAndInitialize pageA initialWorld = Some sessionA \<and>
   isVideoPage pageB \<and> waitForPlayer pageB \<and> getVideoId pageB \<noteq> currentVideoId sessionA \<and>
   root (overlay sessionA) \<and> container (overlay sessionA) \<and>
   overlayAttached (hostState sessionA) \<and> pendingFrames (hostState sessionA) = [1] \<and>
   segments (overlay sessionA) = [helloSegment] \<and>
   checkAndInitialize pageB sessionA =
     Some (initializeForVideo pageB (selectVideo (Some ''B'') sessionA)) \<and>
   overlay (selectVideo (Some ''B'') sessionA) = overlay sessionA \<and>
   hostState (selectVideo (Some ''B'') sessionA) = hostState sessionA \<and>
   checkAndInitialize pageB sessionA =
     Some (sessionA\<lparr>currentVideoId := Some ''B'',
                    extractorState := \<lparr>videoId = Some ''B'', subtitles = [helloSegment]\<rparr>\<rparr>) \<and>
   isInitialized (sessionA\<lparr>currentVideoId := Some ''B'',
                    extractorState := \<lparr>videoId = Some ''B'', subtitles = [helloSegment]\<rparr>\<rparr>) \<and>
   checkAndInitialize blankPage sessionA =
     Some (sessionA\<lparr>isInitialized := False,
             overlay := (overlay sessionA)\<lparr>root := False, container := False\<rparr>,
             hostState := (hostState sessionA)\<lparr>overlayAttached := False, pendingFrames := []\<rparr>\<rparr>)"
proof -
  have vp: "isVideoPage pageB" "waitForPlayer pageB" "\<not> isVideoPage blankPage"
    by (simp_all add: isVideoPage_def getVideoId_def truthy_def waitForPlayer_def pageB_def
        blankPage_def)
  have c4: "root (overlay sessionA)" "container (overlay sessionA)"
    "overlayAttached (hostState sessionA)" "pendingFrames (hostState sessionA) = [1]"
    "segments (overlay sessionA) = [helloSegment]" "isInitialized sessionA"
    "getVideoId pageB \<noteq> currentVideoId sessionA"
    by (simp_all add: sessionA_def getVideoId_pageB)
  have hyp: "isVideoPage pageB \<and> waitForPlayer pageB \<and>
     getVideoId pageB \<noteq> currentVideoId sessionA \<and> root (overlay sessionA) \<and>
     container (overlay sessionA) \<and> overlayAttached (hostState sessionA)"
    using vp c4 by simp
  note g = video_change_skips_teardown[of pageB sessionA, THEN mp, OF hyp]
  have c1: "checkAndInitialize pageB sessionA =
     Some (initializeForVideo pageB (selectVideo (Some ''B'') sessionA))"
    using g[THEN conjunct1] by (simp add: getVideoId_pageB)
  have c0: "overlay (selectVideo (Some ''B'') sessionA) = overlay sessionA"
    "hostState (selectVideo (Some ''B'') sessionA) = hostState sessionA"
    using g[THEN conjunct2, THEN conjunct1] g[THEN conjunct2, THEN conjunct2, THEN conjunct1]
    by (simp_all add: getVideoId_pageB)
  have ex: "extractSubtitles pageB None \<lparr>videoId = Some ''A'', subtitles = [helloSegment]\<rparr> =
      ([], \<lparr>videoId = Some ''B'', subtitles = [helloSegment]\<rparr>)"
    by (simp add: extractSubtitles_def extractBody_pageB getVideoId_pageB)
  have c2: "initializeForVideo pageB (selectVideo (Some ''B'') sessionA) =
     sessionA\<lparr>currentVideoId := Some ''B'',
              extractorState := \<lparr>videoId = Some ''B'', subtitles = [helloSegment]\<rparr>\<rparr>"
    using ex by (simp add: initializeForVideo_def selectVideo_def sessionA_def)
  have c3: "checkAndInitialize blankPage sessionA =
     Some (sessionA\<lparr>isInitialized := False,
             overlay := (overlay sessionA)\<lparr>root := False, container := False\<rparr>,
             hostState := (hostState sessionA)\<lparr>overlayAttached := False, pendingFrames := []\<rparr>\<rparr>)"
    by (simp add: checkAndInitialize_def vp cleanup_def destroy_def cancelAnimationFrame_def
        Let_def sessionA_def)
  have c5: "checkAndInitialize pageB sessionA =
     Some (sessionA\<lparr>currentVideoId := Some ''B'',
                    extractorState := \<lparr>videoId = Some ''B'', subtitles = [helloSegment]\<rparr>\<rparr>)"
    using c1 c2 by simp
  have c6: "isInitialized (sessionA\<lparr>currentVideoId := Some ''B'',
                    extractorState := \<lparr>videoId = Some ''B'', subtitles = [helloSegment]\<rparr>\<rparr>)"
    using c4(6) by simp
  show ?thesis
    by (intro conjI session_reached vp(1,2) c4(7) c4(1-5) c1 c0 c5 c6 c3)
qed

section \<open>Properties of the vocabulary store\<close>

lemma findIndex_Some:
  "findIndex P xs = Some i \<longleftrightarrow> i < length xs \<and> P (xs ! i) \<and> (\<forall>j < i. \<not> P (xs ! j))"
proof (induction xs arbitrary: i)
  case Nil
  then show ?case by simp
next
  case (Cons x xs)
  show ?case
  proof (cases "P x")
    case True
    then show ?thesis by (cases i) auto
  next
    case False
    show ?thesis
    proof (cases i)
      case 0
      with False show ?thesis by (auto split: option.splits)
    next
      case (Suc k)
      have "(\<forall>j < Suc k. \<not> P ((x # xs) ! j)) \<longleftrightarrow> (\<forall>j < k. \<not> P (xs ! j))"
        using False by (auto simp: less_Suc_eq_0_disj)
      with False Suc Cons.IH[of k] show ?thesis by (auto split: option.splits)
    qed
  qed
qed

lemma findIndex_None: "findIndex P xs = None \<longleftrightarrow> (\<forall>x \<in> set xs. \<not> P x)"
  by (induction xs) (auto split: option.splits)

lemma lower_Hello: "toLowerCase ''Hello'' = ''hello''" by code_simp
lemma lower_hello: "toLowerCase ''hello'' = ''hello''" by code_simp
lemma lower_bye: "toLowerCase ''bye'' = ''bye''" by code_simp
lemma lower_world: "toLowerCase ''world'' = ''world''" by code_simp

lemma getVocabulary_stored: "\<not> getRejects env \<Longrightarrow> getVocabulary env st = storedVocabulary st"
  by (simp add: getVocabulary_def storedVocabulary_def)

text \<open>
  Claim C9, as stated, fails when the read of the stored vocabulary is rejected:
  \<open>getVocabulary\<close> catches the rejection and answers with the empty list, and
  \<open>saveVocabularyItem\<close> writes back what it was given plus the new item. The store
  holds \<open>bye\<close> (id 9) and \<open>Hello\<close> (id 7). Saving \<open>hello\<close>, which matches the stored
  \<open>Hello\<close>, leaves a stored list of length 1, not 2, whose item has the id
  \<open>Date.now()\<close>, not 7; saving \<open>world\<close>, which matches nothing, leaves a stored
  list of length 1, not 3.
\<close>

theorem rejected_read_drops_stored_items:
  "getRejects unreadableEnv \<and> \<not> setRejects unreadableEnv \<and>
   storedVocabulary twoWordStorage = [byeItem, helloItem] \<and>
   \<not> sameWord helloInput byeItem \<and> sameWord helloInput helloItem \<and> v_id helloItem = 7 \<and>
   saveVocabularyItem unreadableEnv twoWordStorage helloInput =
     Inr (\<lparr>originalWord = ''hello'', v_translation = ''chao'', contextSentence = ''oh hello'',
           v_videoId = ''B'', videoTitle = None, timestamp = ''2023-11-14T22:13:20.000Z'',
           v_language = None, mastery = None, v_id = 1700000000000\<rparr>,
          emptyStorage\<lparr>vocabulary := Some
            [\<lparr>originalWord = ''hello'', v_translation = ''chao'', contextSentence = ''oh hello'',
              v_videoId = ''B'', videoTitle = None, timestamp = ''2023-11-14T22:13:20.000Z'',
              v_language = None, mastery = None, v_id = 1700000000000\<rparr>]\<rparr>) \<and>
   length (storedVocabulary (snd (projr (saveVocabularyItem unreadableEnv twoWordStorage helloInput)))) = 1 \<and>
   length (storedVocabulary twoWordStorage) = 2 \<and>
   v_id (fst (projr (saveVocabularyItem unreadableEnv twoWordStorage helloInput))) = 1700000000000 \<and>
   \<not> sameWord worldInput byeItem \<and> \<not> sameWord worldInput helloItem \<and>
   storedVocabulary (snd (projr (saveVocabularyItem unreadableEnv twoWordStorage worldInput))) =
     [fst (projr (saveVocabularyItem unreadableEnv twoWordStorage worldInput))] \<and>
   storedVocabulary (snd (projr (saveVocabularyItem unreadableEnv twoWordStorage worldInput))) \<noteq>
     storedVocabulary twoWordStorage @
       [fst (projr (saveVocabularyItem unreadableEnv twoWordStorage worldInput))]"
proof -
  have e: "getRejects unreadableEnv" "\<not> setRejects unreadableEnv"
    by (simp_all add: unreadableEnv_def offlineEnv_def)
  have st: "storedVocabulary twoWordStorage = [byeItem, helloItem]"
    by (simp add: storedVocabulary_def twoWordStorage_def emptyStorage_def)
  have m: "\<not> sameWord helloInput byeItem" "sameWord helloInput helloItem"
    "\<not> sameWord worldInput byeItem" "\<not> sameWord worldInput helloItem"
    by (simp_all add: sameWord_def helloInput_def worldInput_def helloItem_def byeItem_def
        lower_Hello lower_hello lower_bye lower_world)
  have i7: "v_id helloItem = 7" by (simp add: helloItem_def)
  have h: "saveVocabularyItem unreadableEnv twoWordStorage helloInput =
     Inr (\<lparr>originalWord = ''hello'', v_translation = ''chao'', contextSentence = ''oh hello'',
           v_videoId = ''B'', videoTitle = None, timestamp = ''2023-11-14T22:13:20.000Z'',
           v_language = None, mastery = None, v_id = 1700000000000\<rparr>,
          emptyStorage\<lparr>vocabulary := Some
            [\<lparr>originalWord = ''hello'', v_translation = ''chao'', contextSentence = ''oh hello'',
              v_videoId = ''B'', videoTitle = None, timestamp = ''2023-11-14T22:13:20.000Z'',
              v_language = None, mastery = None, v_id = 1700000000000\<rparr>]\<rparr>)"
    by (simp add: saveVocabularyItem_def getVocabulary_def unreadableEnv_def offlineEnv_def
        twoWordStorage_def emptyStorage_def helloInput_def Let_def)
  have w: "saveVocabularyItem unreadableEnv twoWordStorage worldInput =
     Inr (\<lparr>originalWord = ''world'', v_translation = ''the gioi'', contextSentence = ''Hello world'',
           v_videoId = ''A'', videoTitle = None, timestamp = ''2023-11-14T22:13:20.000Z'',
           v_language = None, mastery = None, v_id = 1700000000000\<rparr>,
          emptyStorage\<lparr>vocabulary := Some
            [\<lparr>originalWord = ''world'', v_translation = ''the gioi'', contextSentence = ''Hello world'',
              v_videoId = ''A'', videoTitle = None, timestamp = ''2023-11-14T22:13:20.000Z'',
              v_language = None, mastery = None, v_id = 1700000000000\<rparr>]\<rparr>)"
    by (simp add: saveVocabularyItem_def getVocabulary_def unreadableEnv_def offlineEnv_def
        twoWordStorage_def emptyStorage_def worldInput_def Let_def)
  have l1: "length (storedVocabulary (snd (projr (saveVocabularyItem unreadableEnv twoWordStorage helloInput)))) = 1"
    by (simp add: h storedVocabulary_def emptyStorage_def)
  have l2: "length (storedVocabulary twoWordStorage) = 2" by (simp add: st)
  have d: "v_id (fst (projr (saveVocabularyItem unreadableEnv twoWordStorage helloInput))) = 1700000000000"
    by (simp add: h)
  have a1: "storedVocabulary (snd (projr (saveVocabularyItem unreadableEnv twoWordStorage worldInput))) =
     [fst (projr (saveVocabularyItem unreadableEnv twoWordStorage worldInput))]"
    by (simp add: w storedVocabulary_def emptyStorage_def)
  have a2: "storedVocabulary (snd (projr (saveVocabularyItem unreadableEnv twoWordStorage worldInput))) \<noteq>
     storedVocabulary twoWordStorage @
       [fst (projr (saveVocabularyItem unreadableEnv twoWordStorage worldInput))]"
    unfolding a1 st by simp
  show ?thesis
    by (intro conjI e st m i7 h l1 l2 d a1 a2)
qed

text \<open>
  Claim C9, amended: provided the read of the stored vocabulary is not rejected. When
  \<open>saveVocabularyItem\<close> then succeeds and the stored list has an item whose
  \<open>originalWord\<close> equals the new one's after \<open>toLowerCase\<close>, the first such item is
  replaced in place: the stored list keeps its length and the new item keeps that
  item's id. When the stored list has no such item, the new item is appended to it with
  the id \<open>Date.now()\<close>. The other keys of the storage are not touched, and the call
  succeeds whenever the write to storage is not rejected.
\<close>

theorem saveVocabularyItem_upsert:
  assumes read_ok: "\<not> getRejects env"
  shows
  "(saveVocabularyItem env st item = Inr (newItem, st') \<longrightarrow>
      ((\<exists>v \<in> set (storedVocabulary st). sameWord item v) \<longrightarrow>
         (\<exists>i < length (storedVocabulary st).
            sameWord item (storedVocabulary st ! i) \<and>
            (\<forall>j < i. \<not> sameWord item (storedVocabulary st ! j)) \<and>
            storedVocabulary st' = (storedVocabulary st)[i := newItem] \<and>
            v_id newItem = v_id (storedVocabulary st ! i)) \<and>
         length (storedVocabulary st') = length (storedVocabulary st)) \<and>
      ((\<forall>v \<in> set (storedVocabulary st). \<not> sameWord item v) \<longrightarrow>
         storedVocabulary st' = storedVocabulary st @ [newItem] \<and>
         v_id newItem = dateNow env) \<and>
      originalWord newItem = originalWord item \<and> v_translation newItem = v_translation item \<and>
      contextSentence newItem = contextSentence item \<and> v_videoId newItem = v_videoId item \<and>
      timestamp newItem = isoNow env \<and>
      settings st' = settings st \<and> translationCache st' = translationCache st) \<and>
   (\<not> setRejects env \<longrightarrow> (\<exists>newItem st'. saveVocabularyItem env st item = Inr (newItem, st')))"
proof (intro conjI impI)
  assume s: "saveVocabularyItem env st item = Inr (newItem, st')"
  let ?vocab = "storedVocabulary st"
  let ?P = "\<lambda>v. toLowerCase (originalWord v) = toLowerCase (originalWord item)"
  note g = getVocabulary_stored[OF read_ok, of st]
  show "originalWord newItem = originalWord item" "v_translation newItem = v_translation item"
    "contextSentence newItem = contextSentence item" "v_videoId newItem = v_videoId item"
    "timestamp newItem = isoNow env" "settings st' = settings st"
    "translationCache st' = translationCache st"
    using s by (auto simp: saveVocabularyItem_def Let_def split: if_splits)
  {
    assume "\<exists>v \<in> set ?vocab. sameWord item v"
    then have "findIndex ?P ?vocab \<noteq> None"
      by (auto simp: findIndex_None sameWord_def)
    then obtain i where i: "findIndex ?P ?vocab = Some i" by auto
    then have p: "i < length ?vocab" "sameWord item (?vocab ! i)"
      "\<forall>j < i. \<not> sameWord item (?vocab ! j)"
      by (simp_all add: findIndex_Some sameWord_def)
    from s i have "vocabulary st' = Some (?vocab[i := newItem])"
      by (auto simp: saveVocabularyItem_def g Let_def split: if_splits)
    then have r1: "storedVocabulary st' = ?vocab[i := newItem]"
      by (simp add: storedVocabulary_def)
    from s i have r2: "v_id newItem = v_id (?vocab ! i)"
      by (auto simp: saveVocabularyItem_def g Let_def split: if_splits)
    from p r1 r2 show "\<exists>i < length ?vocab.
            sameWord item (?vocab ! i) \<and> (\<forall>j < i. \<not> sameWord item (?vocab ! j)) \<and>
            storedVocabulary st' = ?vocab[i := newItem] \<and> v_id newItem = v_id (?vocab ! i)"
      by blast
    from r1 show "length (storedVocabulary st') = length ?vocab"
      by simp
  }
  {
    assume "\<forall>v \<in> set ?vocab. \<not> sameWord item v"
    then have n: "findIndex ?P ?vocab = None"
      by (auto simp: findIndex_None sameWord_def)
    from s n have "vocabulary st' = Some (?vocab @ [newItem])"
      by (auto simp: saveVocabularyItem_def g Let_def split: if_splits)
    then show "storedVocabulary st' = ?vocab @ [newItem]"
      by (simp add: storedVocabulary_def)
    from s n show "v_id newItem = dateNow env"
      by (auto simp: saveVocabularyItem_def g Let_def split: if_splits)
  }
next
  assume "\<not> setRejects env"
  then show "\<exists>newItem st'. saveVocabularyItem env st item = Inr (newItem, st')"
    by (simp add: saveVocabularyItem_def Let_def)
qed

text \<open>
  With a readable store that holds \<open>bye\<close> (id 9) and \<open>Hello\<close> (id 7): saving
  \<open>hello\<close> replaces the second item and keeps the id 7; saving \<open>world\<close> appends a
  third item with the id \<open>Date.now()\<close>.
\<close>

theorem saveVocabularyItem_upsert_witness:
  "\<not> getRejects offlineEnv \<and>
   storedVocabulary twoWordStorage = [byeItem, helloItem] \<and>
   sameWord helloInput helloItem \<and>
   storedVocabulary (snd (projr (saveVocabularyItem offlineEnv twoWordStorage helloInput))) =
     [byeItem, fst (projr (saveVocabularyItem offlineEnv twoWordStorage helloInput))] \<and>
   v_id (fst (projr (saveVocabularyItem offlineEnv twoWordStorage helloInput))) = 7 \<and>
   \<not> sameWord worldInput byeItem \<and> \<not> sameWord worldInput helloItem \<and>
   storedVocabulary (snd (projr (saveVocabularyItem offlineEnv twoWordStorage worldInput))) =
     [byeItem, helloItem, fst (projr (saveVocabularyItem offlineEnv twoWordStorage worldInput))] \<and>
   v_id (fst (projr (saveVocabularyItem offlineEnv twoWordStorage worldInput))) = 1700000000000"
proof -
  have rd: "\<not> getRejects offlineEnv" by (simp add: offlineEnv_def)
  have g: "storedVocabulary twoWordStorage = [byeItem, helloItem]"
    by (simp add: storedVocabulary_def twoWordStorage_def emptyStorage_def)
  have m: "sameWord helloInput helloItem" "\<not> sameWord helloInput byeItem"
    "\<not> sameWord worldInput byeItem" "\<not> sameWord worldInput helloItem"
    by (simp_all add: sameWord_def helloInput_def worldInput_def helloItem_def byeItem_def
        lower_Hello lower_hello lower_bye lower_world)
  have ok: "\<not> setRejects offlineEnv" by (simp add: offlineEnv_def)
  let ?vocab = "storedVocabulary twoWordStorage"
  note succeeds = saveVocabularyItem_upsert[OF rd, THEN conjunct2, rule_format, OF ok]
  obtain n1 s1 where r1: "saveVocabularyItem offlineEnv twoWordStorage helloInput = Inr (n1, s1)"
    using succeeds[of twoWordStorage helloInput] by blast
  obtain n2 s2 where r2: "saveVocabularyItem offlineEnv twoWordStorage worldInput = Inr (n2, s2)"
    using succeeds[of twoWordStorage worldInput] by blast
  note hello = saveVocabularyItem_upsert[OF rd, of twoWordStorage helloInput n1 s1,
      THEN conjunct1, rule_format, OF r1]
  note world = saveVocabularyItem_upsert[OF rd, of twoWordStorage worldInput n2 s2,
      THEN conjunct1, rule_format, OF r2]
  have ex: "\<exists>v \<in> set ?vocab. sameWord helloInput v" using g m by simp
  from hello[THEN conjunct1, THEN mp, OF ex]
  obtain i where i: "i < length ?vocab" "sameWord helloInput (?vocab ! i)"
    "storedVocabulary s1 = ?vocab[i := n1]" "v_id n1 = v_id (?vocab ! i)"
    by blast
  have i1: "i = 1"
  proof (cases i)
    case 0
    with i(2) g m show ?thesis by simp
  next
    case (Suc k)
    with i(1) g show ?thesis by simp
  qed
  have id7: "v_id n1 = 7" using i(4) i1 g by (simp add: helloItem_def)
  have nx: "\<forall>v \<in> set ?vocab. \<not> sameWord worldInput v" using g m by simp
  from world[THEN conjunct2, THEN conjunct1, THEN mp, OF nx]
  have w: "storedVocabulary s2 = ?vocab @ [n2]" "v_id n2 = dateNow offlineEnv"
    by blast+
  have dn: "dateNow offlineEnv = 1700000000000" by (simp add: offlineEnv_def)
  have c1: "storedVocabulary (snd (projr (saveVocabularyItem offlineEnv twoWordStorage helloInput))) =
     [byeItem, fst (projr (saveVocabularyItem offlineEnv twoWordStorage helloInput))]"
    using i(3) i1 g by (simp add: r1)
  have c2: "v_id (fst (projr (saveVocabularyItem offlineEnv twoWordStorage helloInput))) = 7"
    using id7 by (simp add: r1)
  have c3: "storedVocabulary (snd (projr (saveVocabularyItem offlineEnv twoWordStorage worldInput))) =
     [byeItem, helloItem, fst (projr (saveVocabularyItem offlineEnv twoWordStorage worldInput))]"
    using w(1) g by (simp add: r2)
  have c4: "v_id (fst (projr (saveVocabularyItem offlineEnv twoWordStorage worldInput))) = 1700000000000"
    using w(2) dn by (simp add: r2)
  show ?thesis
    by (intro conjI rd g m(1) c1 c2 m(3) m(4) c3 c4)
qed

section \<open>Properties of the translation handler\<close>

lemma replaceNonWord_filter:
  "replaceNonWord s = filter (\<lambda>c. isWordChar c \<or> isWhiteSpace c) s"
  by (induction s) auto

lemma of_char_lower:
  "(of_char (toLowerChar c) :: nat) =
     (let n = (of_char c :: nat)
      in if (65 \<le> n \<and> n \<le> 90) \<or> (192 \<le> n \<and> n \<le> 222 \<and> n \<noteq> 215) then n + 32 else n)"
  by (auto simp: toLowerChar_def Let_def)

lemma toLowerChar_idem: "toLowerChar (toLowerChar c) = toLowerChar c"
proof -
  have fixed: "toLowerChar x = x"
    if "\<not> ((65 \<le> (of_char x :: nat) \<and> (of_char x :: nat) \<le> 90) \<or>
            (192 \<le> (of_char x :: nat) \<and> (of_char x :: nat) \<le> 222 \<and> (of_char x :: nat) \<noteq> 215))"
    for x
    using that by (auto simp: toLowerChar_def Let_def)
  have "\<not> ((65 \<le> (of_char (toLowerChar c) :: nat) \<and> (of_char (toLowerChar c) :: nat) \<le> 90) \<or>
     (192 \<le> (of_char (toLowerChar c) :: nat) \<and> (of_char (toLowerChar c) :: nat) \<le> 222 \<and>
      (of_char (toLowerChar c) :: nat) \<noteq> 215))"
    unfolding of_char_lower by (auto simp: Let_def)
  then show ?thesis by (rule fixed)
qed

lemma isWhiteSpace_lower: "isWhiteSpace (toLowerChar c) = isWhiteSpace c"
  unfolding isWhiteSpace_def of_char_lower by (auto simp: Let_def)

lemma isWordChar_lower: "isWordChar c \<Longrightarrow> isWordChar (toLowerChar c)"
  unfolding isWordChar_def of_char_lower by (auto simp: Let_def)

lemma trim_subset: "set (trim s) \<subseteq> set s"
proof -
  have "set (dropWhile isWhiteSpace (rev (dropWhile isWhiteSpace s))) \<subseteq> set (rev (dropWhile isWhiteSpace s))"
    by (rule set_dropWhileD[THEN subsetI])
  also have "\<dots> \<subseteq> set s" using set_dropWhileD[of _ isWhiteSpace s] by auto
  finally show ?thesis by (simp add: trim_def)
qed

lemma trim_ends:
  "trim s \<noteq> [] \<Longrightarrow> \<not> isWhiteSpace (hd (trim s)) \<and> \<not> isWhiteSpace (last (trim s))"
proof -
  assume ne: "trim s \<noteq> []"
  define a where "a = dropWhile isWhiteSpace s"
  define r where "r = dropWhile isWhiteSpace (rev a)"
  have t: "trim s = rev r" by (simp add: trim_def r_def a_def)
  with ne have rne: "r \<noteq> []" by simp
  then have h: "\<not> isWhiteSpace (hd r)" unfolding r_def by (rule hd_dropWhile)
  have l: "last (trim s) = hd r" using rne by (simp add: t last_rev)
  have ane: "a \<noteq> []" using rne by (auto simp: r_def)
  then have ha: "\<not> isWhiteSpace (hd a)" unfolding a_def by (rule hd_dropWhile)
  obtain pre where pre: "rev a = pre @ r"
    unfolding r_def by (metis takeWhile_dropWhile_id)
  then have "a = rev r @ rev pre" by (metis rev_append rev_rev_ident)
  then have "hd a = hd (rev r)" using rne by simp
  with ha t have "\<not> isWhiteSpace (hd (trim s))" by simp
  with h l show ?thesis by simp
qed

lemma cleanWord_chars:
  "c \<in> set (cleanWord w) \<Longrightarrow> (isWordChar c \<or> isWhiteSpace c) \<and> toLowerChar c = c"
proof -
  assume "c \<in> set (cleanWord w)"
  then obtain d where d: "d \<in> set (trim (replaceNonWord w))" "c = toLowerChar d"
    by (auto simp: cleanWord_def toLowerCase_def)
  from d(1) trim_subset have "d \<in> set (replaceNonWord w)" by blast
  then have "isWordChar d \<or> isWhiteSpace d" by (simp add: replaceNonWord_filter)
  then have "isWordChar c \<or> isWhiteSpace c"
    using d(2) isWordChar_lower isWhiteSpace_lower by blast
  moreover have "toLowerChar c = c" using d(2) toLowerChar_idem by simp
  ultimately show ?thesis by simp
qed

lemma cleanWord_ends:
  "cleanWord w \<noteq> [] \<Longrightarrow> \<not> isWhiteSpace (hd (cleanWord w)) \<and> \<not> isWhiteSpace (last (cleanWord w))"
proof -
  assume ne: "cleanWord w \<noteq> []"
  let ?t = "trim (replaceNonWord w)"
  from ne have tne: "?t \<noteq> []" by (simp add: cleanWord_def toLowerCase_def)
  from trim_ends[OF tne] have "\<not> isWhiteSpace (hd ?t)" "\<not> isWhiteSpace (last ?t)" by simp_all
  moreover have "hd (cleanWord w) = toLowerChar (hd ?t)" "last (cleanWord w) = toLowerChar (last ?t)"
    using tne by (simp_all add: cleanWord_def toLowerCase_def hd_map last_map)
  ultimately show ?thesis by (simp add: isWhiteSpace_lower)
qed

lemma cleanWord_hover: "cleanWord ''Hello,'' = ''hello''"
  by code_simp

lemma hover_miss:
  "getCachedTranslation env emptyStorage w = None"
  by (simp add: getCachedTranslation_def emptyStorage_def)

lemma hover_request_for:
  "\<not> getRejects env \<Longrightarrow>
   requestBody (apiRequestFor (getSettings env emptyStorage) hoverRequest) =
     \<lparr>a_word = ''hello'', a_context = Some ''Hello, world'', a_source_language = ''en'',
      a_target_language = ''vi''\<rparr>"
  by (simp add: requestBody_def apiRequestFor_def getSettings_def emptyStorage_def
      DEFAULT_SETTINGS_def hoverRequest_def cleanWord_hover orElse_def)

text \<open>
  Claim C10, as stated, fails in its last part: the hovered token \<open>Hello,\<close> is
  normalised to \<open>hello\<close> and sent so to the backend, but when the backend answers,
  \<open>translateWord\<close> copies the \<open>word\<close> of the answer, here the headword \<open>Hello\<close>, into
  the returned translation.
\<close>

theorem api_word_replaces_normalised_word:
  "cleanWord (q_word hoverRequest) = ''hello'' \<and>
   a_word (requestBody (apiRequestFor (getSettings headwordEnv emptyStorage) hoverRequest)) = ''hello'' \<and>
   r_word (fst (handleGetTranslation headwordEnv emptyStorage hoverRequest)) = ''Hello'' \<and>
   r_word (fst (handleGetTranslation headwordEnv emptyStorage hoverRequest)) \<noteq>
     cleanWord (q_word hoverRequest)"
proof -
  have g: "\<not> getRejects headwordEnv" by (simp add: headwordEnv_def offlineEnv_def)
  have c: "cleanWord (q_word hoverRequest) = ''hello''"
    by (simp add: hoverRequest_def cleanWord_hover)
  have t: "r_word (translateWord headwordEnv (apiRequestFor (getSettings headwordEnv emptyStorage) hoverRequest)) = ''Hello''"
    by (simp add: translateWord_def hover_request_for[OF g]) (simp add: headwordEnv_def)
  have r: "r_word (fst (handleGetTranslation headwordEnv emptyStorage hoverRequest)) = ''Hello''"
    using t by (simp add: handleGetTranslation_def hover_miss Let_def split: if_splits)
  show ?thesis using c r hover_request_for[OF g] by simp
qed

text \<open>
  Claim C10, amended. The requested word is normalised before the cache lookup and
  before the API call: every code unit that is neither a word character nor white space
  is removed, the result is trimmed and lower-cased, and the handler's answer depends on
  the requested word through this normalised form only. The word field of the returned
  translation is the normalised form when the translation comes from the cache and when
  the API call fails; when the API answers, it is the word field of the API's answer.
\<close>

theorem translation_request_normalised:
  "cleanWord w = toLowerCase (trim (filter (\<lambda>c. isWordChar c \<or> isWhiteSpace c) w)) \<and>
   (\<forall>c \<in> set (cleanWord w). (isWordChar c \<or> isWhiteSpace c) \<and> toLowerChar c = c) \<and>
   (cleanWord w \<noteq> [] \<longrightarrow>
      \<not> isWhiteSpace (hd (cleanWord w)) \<and> \<not> isWhiteSpace (last (cleanWord w))) \<and>
   (q_word request = w \<longrightarrow>
      (\<forall>other. cleanWord other = cleanWord w \<longrightarrow>
         handleGetTranslation env st (request\<lparr>q_word := other\<rparr>) =
         handleGetTranslation env st request) \<and>
      (\<forall>cached. getCachedTranslation env st (cleanWord w) = Some cached \<longrightarrow>
         r_word (fst (handleGetTranslation env st request)) = cleanWord w \<and>
         r_translation (fst (handleGetTranslation env st request)) = cached) \<and>
      (getCachedTranslation env st (cleanWord w) = None \<longrightarrow>
         fst (handleGetTranslation env st request) =
           translateWord env (apiRequestFor (getSettings env st) request) \<and>
         a_word (requestBody (apiRequestFor (getSettings env st) request)) = cleanWord w \<and>
         (apiTranslate env (requestBody (apiRequestFor (getSettings env st) request)) = None \<longrightarrow>
            r_word (fst (handleGetTranslation env st request)) = cleanWord w) \<and>
         (\<forall>d. apiTranslate env (requestBody (apiRequestFor (getSettings env st) request)) = Some d
            \<longrightarrow> r_word (fst (handleGetTranslation env st request)) = d_word d)))"
proof (intro conjI ballI impI allI)
  show "cleanWord w = toLowerCase (trim (filter (\<lambda>c. isWordChar c \<or> isWhiteSpace c) w))"
    by (simp add: cleanWord_def replaceNonWord_filter)
next
  fix c assume "c \<in> set (cleanWord w)"
  from cleanWord_chars[OF this]
  show "isWordChar c \<or> isWhiteSpace c" "toLowerChar c = c" by simp_all
next
  assume "cleanWord w \<noteq> []"
  from cleanWord_ends[OF this]
  show "\<not> isWhiteSpace (hd (cleanWord w))" "\<not> isWhiteSpace (last (cleanWord w))" by simp_all
next
  fix other assume "q_word request = w" "cleanWord other = cleanWord w"
  then have eq: "apiRequestFor s (request\<lparr>q_word := other\<rparr>) = apiRequestFor s request"
    "cleanWord (q_word (request\<lparr>q_word := other\<rparr>)) = cleanWord (q_word request)" for s
    by (simp_all add: apiRequestFor_def)
  show "handleGetTranslation env st (request\<lparr>q_word := other\<rparr>) =
         handleGetTranslation env st request"
    unfolding handleGetTranslation_def eq ..
next
  fix cached
  assume a: "q_word request = w" "getCachedTranslation env st (cleanWord w) = Some cached"
  then show "r_word (fst (handleGetTranslation env st request)) = cleanWord w"
    "r_translation (fst (handleGetTranslation env st request)) = cached"
    by (simp_all add: handleGetTranslation_def Let_def)
next
  assume a: "q_word request = w" "getCachedTranslation env st (cleanWord w) = None"
  then show f: "fst (handleGetTranslation env st request) =
           translateWord env (apiRequestFor (getSettings env st) request)"
    by (simp add: handleGetTranslation_def Let_def)
  from a show "a_word (requestBody (apiRequestFor (getSettings env st) request)) = cleanWord w"
    by (simp add: requestBody_def apiRequestFor_def)
  {
    assume "apiTranslate env (requestBody (apiRequestFor (getSettings env st) request)) = None"
    then show "r_word (fst (handleGetTranslation env st request)) = cleanWord w"
      unfolding f using a by (simp add: translateWord_def apiRequestFor_def)
  }
  {
    fix d
    assume "apiTranslate env (requestBody (apiRequestFor (getSettings env st) request)) = Some d"
    then show "r_word (fst (handleGetTranslation env st request)) = d_word d"
      unfolding f by (simp add: translateWord_def)
  }
qed

theorem translation_request_normalised_witness:
  "q_word hoverRequest = ''Hello,'' \<and> cleanWord ''Hello,'' = ''hello'' \<and>
   getCachedTranslation offlineEnv cachedStorage (cleanWord ''Hello,'') = Some ''xin chao'' \<and>
   r_word (fst (handleGetTranslation offlineEnv cachedStorage hoverRequest)) = ''hello'' \<and>
   r_translation (fst (handleGetTranslation offlineEnv cachedStorage hoverRequest)) = ''xin chao'' \<and>
   getCachedTranslation offlineEnv emptyStorage (cleanWord ''Hello,'') = None \<and>
   r_word (fst (handleGetTranslation offlineEnv emptyStorage hoverRequest)) = ''hello'' \<and>
   handleGetTranslation offlineEnv emptyStorage (hoverRequest\<lparr>q_word := ''hello''\<rparr>) =
     handleGetTranslation offlineEnv emptyStorage hoverRequest \<and>
   r_word (fst (handleGetTranslation headwordEnv emptyStorage hoverRequest)) = ''Hello'' \<and>
   cleanWord ''Hello,'' \<noteq> [] \<and> \<not> isWhiteSpace (hd (cleanWord ''Hello,'')) \<and>
   \<not> isWhiteSpace (last (cleanWord ''Hello,'')) \<and>
   list_all (\<lambda>c. (isWordChar c \<or> isWhiteSpace c) \<and> toLowerChar c = c) (cleanWord ''Hello,'')"
proof -
  have q: "q_word hoverRequest = ''Hello,''" by (simp add: hoverRequest_def)
  have lo: "toLowerCase ''hello'' = ''hello''" by code_simp
  have ch: "cleanWord ''hello'' = cleanWord ''Hello,''" by code_simp
  have hit: "getCachedTranslation offlineEnv cachedStorage (cleanWord ''Hello,'') = Some ''xin chao''"
    by (simp add: getCachedTranslation_def offlineEnv_def cachedStorage_def emptyStorage_def
        cleanWord_hover lo)
  have off: "apiTranslate offlineEnv
      (requestBody (apiRequestFor (getSettings offlineEnv emptyStorage) hoverRequest)) = None"
    by (simp add: offlineEnv_def)
  note t1 = translation_request_normalised[of "''Hello,''" hoverRequest offlineEnv cachedStorage]
  note t2 = translation_request_normalised[of "''Hello,''" hoverRequest offlineEnv emptyStorage]
  from t1 q hit
  have a: "r_word (fst (handleGetTranslation offlineEnv cachedStorage hoverRequest)) = cleanWord ''Hello,''"
    "r_translation (fst (handleGetTranslation offlineEnv cachedStorage hoverRequest)) = ''xin chao''"
    by blast+
  from t2 q hover_miss[of offlineEnv "cleanWord ''Hello,''"] off
  have b: "r_word (fst (handleGetTranslation offlineEnv emptyStorage hoverRequest)) = cleanWord ''Hello,''"
    by blast
  from t2 q ch
  have c: "handleGetTranslation offlineEnv emptyStorage (hoverRequest\<lparr>q_word := ''hello''\<rparr>) =
     handleGetTranslation offlineEnv emptyStorage hoverRequest"
    by blast
  note t3 = translation_request_normalised[of "''Hello,''" hoverRequest headwordEnv emptyStorage]
  have hg: "\<not> getRejects headwordEnv" by (simp add: headwordEnv_def offlineEnv_def)
  have ans: "apiTranslate headwordEnv
      (requestBody (apiRequestFor (getSettings headwordEnv emptyStorage) hoverRequest)) =
        Some \<lparr>d_word = ''Hello'', d_translation = ''xin chao'', d_language = Some ''vi'',
               d_pronunciation = None, d_part_of_speech = None, d_definitions = None\<rparr>"
    by (simp add: hover_request_for[OF hg]) (simp add: headwordEnv_def)
  from t3 q hover_miss[of headwordEnv "cleanWord ''Hello,''"] ans
  have d: "r_word (fst (handleGetTranslation headwordEnv emptyStorage hoverRequest)) =
      d_word \<lparr>d_word = ''Hello'', d_translation = ''xin chao'', d_language = Some ''vi'',
               d_pronunciation = None, d_part_of_speech = None, d_definitions = None\<rparr>"
    by blast
  have ne: "cleanWord ''Hello,'' \<noteq> []" by (simp add: cleanWord_hover)
  from t2 ne have e: "\<not> isWhiteSpace (hd (cleanWord ''Hello,''))"
    "\<not> isWhiteSpace (last (cleanWord ''Hello,''))"
    by blast+
  from t2 have f: "list_all (\<lambda>c. (isWordChar c \<or> isWhiteSpace c) \<and> toLowerChar c = c)
      (cleanWord ''Hello,'')"
    unfolding list_all_iff by blast
  have a': "r_word (fst (handleGetTranslation offlineEnv cachedStorage hoverRequest)) = ''hello''"
    "r_word (fst (handleGetTranslation offlineEnv emptyStorage hoverRequest)) = ''hello''"
    "r_word (fst (handleGetTranslation headwordEnv emptyStorage hoverRequest)) = ''Hello''"
    "getCachedTranslation offlineEnv emptyStorage (cleanWord ''Hello,'') = None"
    using a(1) b d by (simp_all add: cleanWord_hover hover_miss)
  show ?thesis
    by (intro conjI q cleanWord_hover hit a' a(2) c ne e f)
qed


end
